theory Spec2Isabelle
  imports
    Main
    "HOL-Library.Char_ord"
    "HOL-Library.List_Lexorder"
    "HOL-Library.Product_Lexorder"
    "HOL-Library.Multiset"
begin

section \<open>Python values\<close>

text \<open>
  The field maps of the connector (\<^verbatim>\<open>desired\<close>, \<^verbatim>\<open>current\<close>, \<^verbatim>\<open>diff\<close>, the result of
  \<^verbatim>\<open>serialize()\<close>) are JSON-like Python values: \<^verbatim>\<open>None\<close>, booleans, integers,
  strings, lists and string-keyed dictionaries. A dictionary is an association list in
  insertion order; lookups take the first binding of a key. Strings are lists of
  \<^typ>\<open>char\<close>, read as the code points 0 to 255. Floating-point values are not
  modelled.
\<close>

datatype pyval =
    PNone
  | PBool bool
  | PInt int
  | PStr string
  | PList "pyval list"
  | PDict "(string \<times> pyval) list"

type_synonym pydict = "(string \<times> pyval) list"

datatype pyerr =
    ValueError string
  | KeyError string
  | AttributeError
  | TypeError
  | IndexError

lemma size_map_of_less:
  "map_of m k = Some v \<Longrightarrow> size v < Suc (size_list (size_prod (\<lambda>_. 0) size) m)"
  by (induction m) (auto split: if_splits)

lemma size_member_less: "z \<in> set xs \<Longrightarrow> size (z :: pyval) < Suc (size_list size xs)"
  by (induction xs) auto

text \<open>
  Python's \<^verbatim>\<open>==\<close> on these values: \<^verbatim>\<open>True == 1\<close> and \<^verbatim>\<open>False == 0\<close> hold, lists are
  compared element by element, dictionaries by key set and value per key, and values of
  different kinds are unequal.
\<close>

function (sequential) py_eq :: "pyval \<Rightarrow> pyval \<Rightarrow> bool" where
  "py_eq PNone PNone = True"
| "py_eq (PBool a) (PBool b) = (a = b)"
| "py_eq (PInt a) (PInt b) = (a = b)"
| "py_eq (PBool a) (PInt b) = ((if a then 1 else 0) = b)"
| "py_eq (PInt a) (PBool b) = (a = (if b then 1 else 0))"
| "py_eq (PStr a) (PStr b) = (a = b)"
| "py_eq (PList xs) (PList ys) = list_all2 py_eq xs ys"
| "py_eq (PDict m) (PDict n) =
     (set (map fst m) = set (map fst n) \<and>
      list_all (\<lambda>k. case map_of m k of None \<Rightarrow> False
                 | Some v \<Rightarrow> (case map_of n k of None \<Rightarrow> False | Some w \<Rightarrow> py_eq v w))
        (map fst m))"
| "py_eq _ _ = False"
  by pat_completeness auto
termination
  by (relation "measure (\<lambda>(a, b). size a)") (auto simp: size_map_of_less size_member_less)

text \<open>Truthiness, as tested by \<^verbatim>\<open>if x:\<close>, \<^verbatim>\<open>x or y\<close> and \<^verbatim>\<open>not x\<close>.\<close>

fun py_truthy :: "pyval \<Rightarrow> bool" where
  "py_truthy PNone = False"
| "py_truthy (PBool b) = b"
| "py_truthy (PInt i) = (i \<noteq> 0)"
| "py_truthy (PStr s) = (s \<noteq> [])"
| "py_truthy (PList xs) = (xs \<noteq> [])"
| "py_truthy (PDict d) = (d \<noteq> [])"

text \<open>\<^verbatim>\<open>d.get(k)\<close>, \<^verbatim>\<open>d.get(k, default)\<close>, \<^verbatim>\<open>k in d\<close> and \<^verbatim>\<open>d[k] = v\<close> on a dictionary.\<close>

definition dict_get :: "pydict \<Rightarrow> string \<Rightarrow> pyval" where
  "dict_get d k = (case map_of d k of None \<Rightarrow> PNone | Some v \<Rightarrow> v)"

definition dict_get_default :: "pydict \<Rightarrow> string \<Rightarrow> pyval \<Rightarrow> pyval" where
  "dict_get_default d k dflt = (case map_of d k of None \<Rightarrow> dflt | Some v \<Rightarrow> v)"

definition dict_contains :: "(string \<times> 'v) list \<Rightarrow> string \<Rightarrow> bool" where
  "dict_contains d k = (map_of d k \<noteq> None)"

fun dict_set :: "(string \<times> 'v) list \<Rightarrow> string \<Rightarrow> 'v \<Rightarrow> (string \<times> 'v) list" where
  "dict_set [] k v = [(k, v)]"
| "dict_set ((k', v') # d) k v =
     (if k' = k then (k, v) # d else (k', v') # dict_set d k v)"

text \<open>
  \<^verbatim>\<open>x.get(k)\<close> on a value that need not be a dictionary: every other kind of value has
  no attribute \<^verbatim>\<open>get\<close>. \<^verbatim>\<open>x or {}\<close> replaces a falsy value by the empty dictionary.
\<close>

fun py_get :: "pyval \<Rightarrow> string \<Rightarrow> pyerr + pyval" where
  "py_get (PDict d) k = Inr (dict_get d k)"
| "py_get _ k = Inl AttributeError"

definition or_empty_dict :: "pyval \<Rightarrow> pyval" where
  "or_empty_dict v = (if py_truthy v then v else PDict [])"

text \<open>Sequencing of computations that may raise: the first exception is the result.\<close>

fun bind_result :: "pyerr + 'a \<Rightarrow> ('a \<Rightarrow> pyerr + 'b) \<Rightarrow> pyerr + 'b" where
  "bind_result (Inl e) f = Inl e"
| "bind_result (Inr x) f = f x"

fun map_result :: "('a \<Rightarrow> pyerr + 'b) \<Rightarrow> 'a list \<Rightarrow> pyerr + 'b list" where
  "map_result f [] = Inr []"
| "map_result f (x # xs) =
     bind_result (f x) (\<lambda>y. bind_result (map_result f xs) (\<lambda>ys. Inr (y # ys)))"

section \<open>The data model (models.py)\<close>

text \<open>
  One record per dataclass. Field names carry a prefix for their record, since the
  dataclasses share field names (\<^verbatim>\<open>name\<close>, \<^verbatim>\<open>status\<close>, \<^verbatim>\<open>modules\<close>, ...) and
  \<^verbatim>\<open>identifier\<close> is reserved. An \<^verbatim>\<open>Optional[str]\<close> field is a \<^typ>\<open>string option\<close>.
\<close>

record NormalizedDevice =
  nd_name :: string
  nd_site_slug :: string
  nd_role_slug :: string
  nd_manufacturer_slug :: string
  nd_device_type_slug :: string
  nd_status :: string
  nd_serial :: "string option"
  nd_asset_tag :: "string option"
  nd_custom_fields :: pydict
  nd_tags :: "string list"

record NormalizedModuleBay =
  nb_name :: string
  nb_label :: "string option"
  nb_position :: "string option"

record NormalizedModule =
  nm_bay_name :: string
  nm_module_type_model :: string
  nm_status :: string
  nm_serial :: "string option"
  nm_custom_fields :: pydict

record NormalizedInterface =
  ni_name :: string
  ni_type_slug :: string
  ni_enabled :: bool
  ni_description :: "string option"
  ni_lag :: "string option"
  ni_mtu :: "int option"
  ni_mac_address :: "string option"
  ni_tagged_vlans :: "string list"
  ni_untagged_vlan :: "string option"
  ni_custom_fields :: pydict

record NormalizedLag =
  nl_name :: string
  nl_description :: "string option"
  nl_members :: "string list"
  nl_enabled :: bool
  nl_custom_fields :: pydict

record NormalizedInventory =
  inv_device :: NormalizedDevice
  inv_module_bays :: "NormalizedModuleBay list"
  inv_modules :: "NormalizedModule list"
  inv_interfaces :: "NormalizedInterface list"
  inv_lags :: "NormalizedLag list"

record Proposal =
  p_action :: string
  p_model :: string
  p_identifier :: string
  p_desired :: pydict
  p_current :: "pydict option"
  p_diff :: "pydict option"

record ProposalBatch =
  b_device :: Proposal
  b_module_bays :: "Proposal list"
  b_modules :: "Proposal list"
  b_interfaces :: "Proposal list"
  b_lags :: "Proposal list"

definition actions :: "ProposalBatch \<Rightarrow> Proposal list" where
  "actions b = b_device b # b_module_bays b @ b_modules b @ b_interfaces b @ b_lags b"

text \<open>An optional string as a field value: \<^verbatim>\<open>None\<close> or the string.\<close>

definition opt_str :: "string option \<Rightarrow> pyval" where
  "opt_str x = (case x of None \<Rightarrow> PNone | Some s \<Rightarrow> PStr s)"

section \<open>Field diff and action classification (ProposalEngine)\<close>

text \<open>
  \<^verbatim>\<open>_diff\<close>: with no current map, the non-null desired fields; otherwise the loop over
  \<^verbatim>\<open>desired.items()\<close> that stores every field whose current value is unequal.
\<close>

fun diff_loop :: "pydict \<Rightarrow> pydict \<Rightarrow> pydict \<Rightarrow> pydict" where
  "diff_loop cur [] acc = acc"
| "diff_loop cur ((key, val) # items) acc =
     (let current_value = (if cur \<noteq> [] then dict_get cur key else PNone)
      in diff_loop cur items
           (if \<not> py_eq current_value val then dict_set acc key val else acc))"

definition non_null_fields :: "pydict \<Rightarrow> pydict" where
  "non_null_fields des = filter (\<lambda>(k, v). v \<noteq> PNone) des"

definition ProposalEngine_diff :: "pydict \<Rightarrow> pydict option \<Rightarrow> pydict" where
  "ProposalEngine_diff des cur =
     (case cur of
        None \<Rightarrow> non_null_fields des
      | Some c \<Rightarrow> diff_loop c des [])"

text \<open>
  \<^verbatim>\<open>_action_and_diff\<close>. \<^verbatim>\<open>diff or desired\<close> is \<^verbatim>\<open>desired\<close> when the diff is the empty
  dictionary.
\<close>

definition ProposalEngine_action_and_diff ::
  "pydict \<Rightarrow> pydict option \<Rightarrow> bool \<Rightarrow> string \<times> pydict option" where
  "ProposalEngine_action_and_diff des cur exists =
     (if \<not> exists then
        (let d = ProposalEngine_diff des None
         in (''create'', Some (if d \<noteq> [] then d else des)))
      else
        (let d = ProposalEngine_diff des cur
         in if d \<noteq> [] then (''update'', Some d) else (''noop'', None)))"

section \<open>Strings\<close>

text \<open>
  The string methods the connector uses, on the code points 0 to 255, where
  \<^verbatim>\<open>str.lower\<close> maps each character to one character of the same range (outside this
  range \<^verbatim>\<open>lower\<close> can take a letter into ASCII, as it does for U+212A, or to two
  characters, as for U+0130; the comparison of the two slugify routines is therefore stated on the
  lower-cased string). The tables
  are those of Python 3: \<^verbatim>\<open>isspace\<close> holds for U+0009 to U+000D, U+001C to U+0020, U+0085
  and U+00A0; \<^verbatim>\<open>lower\<close> moves A to Z, U+00C0 to U+00D6 and U+00D8 to U+00DE up by 32;
  \<^verbatim>\<open>isalnum\<close> holds for the ASCII letters and digits and for the letters and numeric
  characters of the upper half.
\<close>

definition py_isspace :: "char \<Rightarrow> bool" where
  "py_isspace c =
     (let n = (of_char c :: nat)
      in (9 \<le> n \<and> n \<le> 13) \<or> (28 \<le> n \<and> n \<le> 32) \<or> n = 133 \<or> n = 160)"

definition py_lower_char :: "char \<Rightarrow> char" where
  "py_lower_char c =
     (let n = (of_char c :: nat)
      in if (65 \<le> n \<and> n \<le> 90) \<or> (192 \<le> n \<and> n \<le> 214) \<or> (216 \<le> n \<and> n \<le> 222)
         then char_of (n + 32) else c)"

definition py_lower :: "string \<Rightarrow> string" where
  "py_lower s = map py_lower_char s"

definition py_isalnum :: "char \<Rightarrow> bool" where
  "py_isalnum c =
     (let n = (of_char c :: nat)
      in (48 \<le> n \<and> n \<le> 57) \<or> (65 \<le> n \<and> n \<le> 90) \<or> (97 \<le> n \<and> n \<le> 122) \<or>
         n = 170 \<or> n = 178 \<or> n = 179 \<or> n = 181 \<or> n = 185 \<or> n = 186 \<or>
         (188 \<le> n \<and> n \<le> 190) \<or> (192 \<le> n \<and> n \<le> 214) \<or> (216 \<le> n \<and> n \<le> 246) \<or>
         (248 \<le> n \<and> n \<le> 255))"

text \<open>\<^verbatim>\<open>s.strip()\<close> and \<^verbatim>\<open>s.strip("-")\<close>.\<close>

definition strip_where :: "(char \<Rightarrow> bool) \<Rightarrow> string \<Rightarrow> string" where
  "strip_where P s = rev (dropWhile P (rev (dropWhile P s)))"

definition py_strip :: "string \<Rightarrow> string" where
  "py_strip s = strip_where py_isspace s"

definition strip_hyphens :: "string \<Rightarrow> string" where
  "strip_hyphens s = strip_where (\<lambda>c. c = CHR ''-'') s"

text \<open>
  The character class \<^verbatim>\<open>[a-z0-9]\<close> and \<^verbatim>\<open>re.sub(r"[^a-z0-9]+", "-", value)\<close>: scanning
  from the left, each maximal run of characters outside the class becomes one hyphen.
\<close>

definition is_az09 :: "char \<Rightarrow> bool" where
  "is_az09 c =
     (let n = (of_char c :: nat) in (48 \<le> n \<and> n \<le> 57) \<or> (97 \<le> n \<and> n \<le> 122))"

function re_sub_non_az09 :: "string \<Rightarrow> string" where
  "re_sub_non_az09 [] = []"
| "re_sub_non_az09 (c # cs) =
     (if is_az09 c then c # re_sub_non_az09 cs
      else CHR ''-'' # re_sub_non_az09 (dropWhile (\<lambda>x. \<not> is_az09 x) cs))"
  by pat_completeness auto
termination
  by (relation "measure length") (auto simp: less_Suc_eq_le length_dropWhile_le)

section \<open>The two slugify routines\<close>

text \<open>\<^verbatim>\<open>RulesEngine._slugify\<close> (config\_loader.py).\<close>

definition RulesEngine_slugify :: "string \<Rightarrow> string" where
  "RulesEngine_slugify v = strip_hyphens (re_sub_non_az09 (py_lower (py_strip v)))"

text \<open>
  The module-level \<^verbatim>\<open>slugify\<close> (netbox\_devices\_full.py): \<^verbatim>\<open>"--" in result\<close>,
  \<^verbatim>\<open>result.replace("--", "-")\<close> (non-overlapping occurrences from the left) and the
  \<^verbatim>\<open>while\<close> loop around them, which stops since every round shortens the string.
\<close>

fun contains_dd :: "string \<Rightarrow> bool" where
  "contains_dd (a # b # cs) = ((a = CHR ''-'' \<and> b = CHR ''-'') \<or> contains_dd (b # cs))"
| "contains_dd _ = False"

fun replace_dd :: "string \<Rightarrow> string" where
  "replace_dd (a # b # cs) =
     (if a = CHR ''-'' \<and> b = CHR ''-'' then CHR ''-'' # replace_dd cs
      else a # replace_dd (b # cs))"
| "replace_dd cs = cs"

lemma length_replace_dd_le: "length (replace_dd s) \<le> length s"
  by (induction s rule: replace_dd.induct) auto

lemma length_replace_dd_less: "contains_dd s \<Longrightarrow> length (replace_dd s) < length s"
proof (induction s rule: replace_dd.induct)
  case (1 a b cs)
  show ?case
  proof (cases "a = CHR ''-'' \<and> b = CHR ''-''")
    case True
    with length_replace_dd_le [of cs] show ?thesis by simp
  next
    case False
    with 1 show ?thesis by auto
  qed
qed simp_all

function collapse_loop :: "string \<Rightarrow> string" where
  "collapse_loop s = (if contains_dd s then collapse_loop (replace_dd s) else s)"
  by pat_completeness auto
termination
  by (relation "measure length") (auto simp: length_replace_dd_less)

declare collapse_loop.simps [simp del]

definition slugify :: "string \<Rightarrow> string" where
  "slugify v =
     (let cleaned = py_lower (py_strip v);
          result = map (\<lambda>ch. if py_isalnum ch then ch else CHR ''-'') cleaned
      in strip_hyphens (collapse_loop result))"

section \<open>The classifier (config\_loader.py)\<close>

text \<open>
  A compiled pattern is used through \<^verbatim>\<open>search\<close> only, and a match through
  \<^verbatim>\<open>groupdict()\<close> and \<^verbatim>\<open>groups()\<close>; a rule holds the search function of its pattern.
  \<^verbatim>\<open>str.format\<close> and \<^verbatim>\<open>str.upper\<close> belong to the Python library and are parameters of
  the model (\<^verbatim>\<open>upper\<close> leaves the range of code points modelled here).
\<close>

record re_match =
  m_groupdict :: "(string \<times> string option) list"
  m_groups :: "string option list"

record RegexRule =
  r_pattern :: "string \<Rightarrow> re_match option"
  r_value :: "string option"
  r_template :: "string option"
  r_transform :: "string option"

record pylib =
  str_format :: "string \<Rightarrow> string option list \<Rightarrow> (string \<times> string option) list \<Rightarrow> pyerr + string"
  str_upper :: "string \<Rightarrow> string"

definition RegexRule_apply :: "pylib \<Rightarrow> RegexRule \<Rightarrow> string \<Rightarrow> pyerr + string option" where
  "RegexRule_apply lib rule candidate =
     (case r_pattern rule candidate of
        None \<Rightarrow> Inr None
      | Some m \<Rightarrow>
          bind_result
            (case r_value rule of
               Some v \<Rightarrow> Inr (Some v)
             | None \<Rightarrow>
                 (case r_template rule of
                    Some t \<Rightarrow>
                      (if m_groupdict m \<noteq> []
                       then bind_result (str_format lib t [] (m_groupdict m)) (\<lambda>r. Inr (Some r))
                       else bind_result (str_format lib t (m_groups m) []) (\<lambda>r. Inr (Some r)))
                  | None \<Rightarrow> Inr None))
            (\<lambda>result.
               case result of
                 None \<Rightarrow> Inr None
               | Some res \<Rightarrow>
                   Inr (Some (if r_transform rule = Some ''lower'' then py_lower res
                              else if r_transform rule = Some ''upper'' then str_upper lib res
                              else res))))"

record RulesEngine =
  role_rules :: "RegexRule list"
  site_rules :: "RegexRule list"
  manufacturer_rules :: "RegexRule list"
  device_type_rules :: "RegexRule list"
  defaults :: "(string \<times> string option) list"

text \<open>
  The loop \<^verbatim>\<open>for rule in rules: value = rule.apply(..); if value: return value\<close>:
  the first truthy value, \<open>None\<close> when the rules are exhausted.
\<close>

fun rules_loop :: "pylib \<Rightarrow> string \<Rightarrow> RegexRule list \<Rightarrow> pyerr + string option" where
  "rules_loop lib candidate [] = Inr None"
| "rules_loop lib candidate (rule # rules) =
     bind_result (RegexRule_apply lib rule candidate)
       (\<lambda>v. case v of
              None \<Rightarrow> rules_loop lib candidate rules
            | Some s \<Rightarrow> if s \<noteq> [] then Inr (Some s) else rules_loop lib candidate rules)"

text \<open>\<^verbatim>\<open>self.defaults.get(key)\<close>, then \<^verbatim>\<open>if default_value:\<close>.\<close>

definition truthy_default :: "RulesEngine \<Rightarrow> string \<Rightarrow> string option" where
  "truthy_default eng key =
     (case map_of (defaults eng) key of
        Some (Some d) \<Rightarrow> if d \<noteq> [] then Some d else None
      | _ \<Rightarrow> None)"

definition RulesEngine_apply_rules ::
  "pylib \<Rightarrow> RulesEngine \<Rightarrow> string \<Rightarrow> RegexRule list \<Rightarrow> string \<Rightarrow> pyerr + string" where
  "RulesEngine_apply_rules lib eng host_name rules default_key =
     bind_result (rules_loop lib host_name rules)
       (\<lambda>found. case found of
          Some v \<Rightarrow> Inr v
        | None \<Rightarrow>
            (case truthy_default eng default_key of
               Some d \<Rightarrow> Inr d
             | None \<Rightarrow>
                 Inl (ValueError (''No rule matched for '' @ default_key @
                                  '' and no default configured''))))"

definition role_slug :: "pylib \<Rightarrow> RulesEngine \<Rightarrow> string \<Rightarrow> pyerr + string" where
  "role_slug lib eng host_name =
     RulesEngine_apply_rules lib eng host_name (role_rules eng) ''role_slug''"

definition site_slug :: "pylib \<Rightarrow> RulesEngine \<Rightarrow> string \<Rightarrow> pyerr + string" where
  "site_slug lib eng host_name =
     RulesEngine_apply_rules lib eng host_name (site_rules eng) ''site_slug''"

definition manufacturer_slug :: "pylib \<Rightarrow> RulesEngine \<Rightarrow> string \<Rightarrow> pyerr + string" where
  "manufacturer_slug lib eng hostname =
     RulesEngine_apply_rules lib eng hostname (manufacturer_rules eng) ''manufacturer_slug''"

definition device_type_slug :: "pylib \<Rightarrow> RulesEngine \<Rightarrow> string \<Rightarrow> pyerr + string" where
  "device_type_slug lib eng device_type =
     bind_result (rules_loop lib device_type (device_type_rules eng))
       (\<lambda>found. case found of
          Some v \<Rightarrow> Inr v
        | None \<Rightarrow>
            (case truthy_default eng ''device_type_slug'' of
               Some d \<Rightarrow> Inr d
             | None \<Rightarrow> Inr (RulesEngine_slugify device_type)))"

section \<open>The module list of the harvester (netmiko\_ssh\_handler.py)\<close>

text \<open>
  The part of \<^verbatim>\<open>_harvest_nokia_sros\<close> that builds \<^verbatim>\<open>modules\<close>, from the results of the
  regular-expression searches: \<^verbatim>\<open>module_pairs\<close> and \<^verbatim>\<open>card_modules\<close> are lists of
  (bay name, model), \<^verbatim>\<open>mda_matches\<close> a list of (slot, descriptor). \<^verbatim>\<open>module_entries\<close> is a
  dictionary keyed by the pair (bay name, model), in insertion order.
\<close>

definition new_module :: "string \<Rightarrow> string \<Rightarrow> NormalizedModule" where
  "new_module bay model_name =
     \<lparr>nm_bay_name = bay, nm_module_type_model = model_name, nm_status = ''active'',
      nm_serial = None, nm_custom_fields = []\<rparr>"

definition add_module ::
  "((string \<times> string) \<times> NormalizedModule) list \<Rightarrow> string \<times> string \<Rightarrow>
   ((string \<times> string) \<times> NormalizedModule) list" where
  "add_module module_entries bm =
     (case bm of (bay, model_name) \<Rightarrow>
        if bay = [] \<or> model_name = [] then module_entries
        else if map_of module_entries (bay, model_name) \<noteq> None then module_entries
        else module_entries @ [((bay, model_name), new_module bay model_name)])"

definition mda_modules :: "(string \<times> string) list \<Rightarrow> (string \<times> string) list" where
  "mda_modules mda_matches =
     map (\<lambda>(slot, descriptor).
            (''MDA '' @ slot, if descriptor \<noteq> [] then descriptor else ''mda-slot-'' @ slot))
       mda_matches"

definition harvest_modules ::
  "(string \<times> string) list \<Rightarrow> (string \<times> string) list \<Rightarrow> (string \<times> string) list \<Rightarrow>
   NormalizedModule list" where
  "harvest_modules module_pairs card_modules mda_matches =
     map snd
       (foldl add_module
          (foldl add_module (foldl add_module [] module_pairs) card_modules)
          (mda_modules mda_matches))"

section \<open>The remote inventory as the Proposal Engine reads it\<close>

text \<open>
  The engine reads the remote system through \<^verbatim>\<open>get\<close> and \<^verbatim>\<open>filter\<close> of four endpoints
  and through \<^verbatim>\<open>serialize()\<close> of the records they return. A device, module bay or
  interface record has an identifier and a name, which is a string; \<^verbatim>\<open>serialize()\<close>
  gives the name under \<^verbatim>\<open>"name"\<close> and the other fields as they are. Module records are
  read through \<^verbatim>\<open>serialize()\<close> only.
\<close>

record nb_record =
  rec_id :: nat
  rec_name :: string
  rec_fields :: pydict

definition serialize :: "nb_record \<Rightarrow> pydict" where
  "serialize r = (''name'', PStr (rec_name r)) # filter (\<lambda>(k, v). k \<noteq> ''name'') (rec_fields r)"

record netbox_api =
  devices_get :: "string \<Rightarrow> nb_record option"
  module_bays_filter :: "nat \<Rightarrow> nb_record list"
  modules_filter :: "nat \<Rightarrow> pydict list"
  interfaces_filter :: "nat \<Rightarrow> nb_record list"

record DeviceState =
  ds_module_bays :: "(string \<times> pydict) list"
  ds_modules :: "(string \<times> pydict) list"
  ds_interfaces :: "(string \<times> pydict) list"
  ds_lag_membership :: "(string \<times> string list) list"

text \<open>
  \<^verbatim>\<open>_load_state\<close>. The key of \<^verbatim>\<open>modules[bay] = data\<close> and of
  \<^verbatim>\<open>lag_membership.setdefault(lag["name"], set())\<close> is any truthy value: a list or a
  dictionary is unhashable and raises \<^verbatim>\<open>TypeError\<close>; a string is the key; under any other
  key the entry is never read again, since every lookup is by a string, and the model
  leaves it out. A Python set of strings is a list without repetitions; the code reads
  its sets through \<^verbatim>\<open>sorted\<close>, \<^verbatim>\<open>in\<close> and set difference only, so the order of the list
  is never observed.
\<close>

fun load_modules :: "pydict list \<Rightarrow> (string \<times> pydict) list \<Rightarrow> pyerr + (string \<times> pydict) list" where
  "load_modules [] modules = Inr modules"
| "load_modules (data # rest) modules =
     bind_result (py_get (or_empty_dict (dict_get data ''module_bay'')) ''name'')
       (\<lambda>bay. if py_truthy bay then
                 (case bay of
                    PStr b \<Rightarrow> load_modules rest (dict_set modules b data)
                  | PList _ \<Rightarrow> Inl TypeError
                  | PDict _ \<Rightarrow> Inl TypeError
                  | _ \<Rightarrow> load_modules rest modules)
               else load_modules rest modules)"

definition membership_add ::
  "(string \<times> string list) list \<Rightarrow> string \<Rightarrow> string \<Rightarrow> (string \<times> string list) list" where
  "membership_add lag_membership lag_name member =
     (case map_of lag_membership lag_name of
        None \<Rightarrow> dict_set lag_membership lag_name [member]
      | Some members \<Rightarrow> dict_set lag_membership lag_name (List.insert member members))"

fun load_interfaces ::
  "nb_record list \<Rightarrow> (string \<times> pydict) list \<times> (string \<times> string list) list \<Rightarrow>
   pyerr + (string \<times> pydict) list \<times> (string \<times> string list) list" where
  "load_interfaces [] st = Inr st"
| "load_interfaces (record # rest) (interfaces, lag_membership) =
     (let data = serialize record;
          interfaces' = dict_set interfaces (rec_name record) data;
          lag = dict_get data ''lag''
      in if py_truthy lag then
           bind_result (py_get lag ''name'')
             (\<lambda>lag_name. if py_truthy lag_name then
                 (case lag_name of
                    PStr l \<Rightarrow>
                      load_interfaces rest
                        (interfaces', membership_add lag_membership l (rec_name record))
                  | PList _ \<Rightarrow> Inl TypeError
                  | PDict _ \<Rightarrow> Inl TypeError
                  | _ \<Rightarrow> load_interfaces rest (interfaces', lag_membership))
               else load_interfaces rest (interfaces', lag_membership))
         else load_interfaces rest (interfaces', lag_membership))"

definition load_state :: "netbox_api \<Rightarrow> nb_record \<Rightarrow> pyerr + DeviceState" where
  "load_state nb device =
     (let module_bays =
            foldl (\<lambda>acc record. dict_set acc (rec_name record) (serialize record)) []
              (module_bays_filter nb (rec_id device))
      in bind_result (load_modules (modules_filter nb (rec_id device)) [])
           (\<lambda>modules.
              bind_result (load_interfaces (interfaces_filter nb (rec_id device)) ([], []))
                (\<lambda>(interfaces, lag_membership).
                   Inr \<lparr>ds_module_bays = module_bays, ds_modules = modules,
                        ds_interfaces = interfaces, ds_lag_membership = lag_membership\<rparr>)))"

section \<open>The Proposal Engine\<close>

fun py_get_default :: "pyval \<Rightarrow> string \<Rightarrow> pyval \<Rightarrow> pyerr + pyval" where
  "py_get_default (PDict d) k dflt = Inr (dict_get_default d k dflt)"
| "py_get_default _ k dflt = Inl AttributeError"

text \<open>
  Iteration over a value (\<^verbatim>\<open>for x in v\<close>, \<^verbatim>\<open>set(v)\<close>): the elements of a list, the keys
  of a dictionary, the characters of a string; anything else is not iterable.
\<close>

fun py_iter :: "pyval \<Rightarrow> pyerr + pyval list" where
  "py_iter (PList xs) = Inr xs"
| "py_iter (PDict d) = Inr (map (\<lambda>(k, v). PStr k) d)"
| "py_iter (PStr s) = Inr (map (\<lambda>c. PStr [c]) s)"
| "py_iter _ = Inl TypeError"

definition device_desired :: "NormalizedDevice \<Rightarrow> pydict" where
  "device_desired device =
     [(''name'', PStr (nd_name device)),
      (''status'', PStr (nd_status device)),
      (''site'', PStr (nd_site_slug device)),
      (''role'', PStr (nd_role_slug device)),
      (''device_type'', PStr (nd_device_type_slug device)),
      (''manufacturer'', PStr (nd_manufacturer_slug device)),
      (''serial'', opt_str (nd_serial device)),
      (''asset_tag'', opt_str (nd_asset_tag device)),
      (''tags'', PList (map PStr (nd_tags device))),
      (''custom_fields'', PDict (nd_custom_fields device))]"

definition device_current :: "pydict \<Rightarrow> pyerr + pydict" where
  "device_current data =
     bind_result (py_get (or_empty_dict (dict_get data ''status'')) ''value'') (\<lambda>status.
     bind_result (py_get (or_empty_dict (dict_get data ''site'')) ''slug'') (\<lambda>site.
     bind_result (py_get (or_empty_dict (dict_get data ''role'')) ''slug'') (\<lambda>role.
     bind_result (py_get (or_empty_dict (dict_get data ''device_type'')) ''slug'') (\<lambda>device_type.
     bind_result
       (bind_result
          (py_get_default (or_empty_dict (dict_get data ''device_type'')) ''manufacturer'' (PDict []))
          (\<lambda>m. py_get m ''slug'')) (\<lambda>manufacturer.
     bind_result
       (bind_result (py_iter (dict_get_default data ''tags'' (PList [])))
          (map_result (\<lambda>tag. py_get tag ''slug''))) (\<lambda>tags.
     Inr [(''name'', dict_get data ''name''),
          (''status'', status),
          (''site'', site),
          (''role'', role),
          (''device_type'', device_type),
          (''manufacturer'', manufacturer),
          (''serial'', dict_get data ''serial''),
          (''asset_tag'', dict_get data ''asset_tag''),
          (''tags'', PList tags),
          (''custom_fields'', dict_get data ''custom_fields'')]))))))"

definition device_proposal :: "NormalizedInventory \<Rightarrow> nb_record option \<Rightarrow> pyerr + Proposal" where
  "device_proposal inventory existing_device =
     (let device = inv_device inventory;
          des = device_desired device
      in bind_result
           (case existing_device of
              None \<Rightarrow> Inr None
            | Some r \<Rightarrow> bind_result (device_current (serialize r)) (\<lambda>c. Inr (Some c)))
           (\<lambda>cur.
              case ProposalEngine_action_and_diff des cur (existing_device \<noteq> None) of
                (act, d) \<Rightarrow>
                  Inr \<lparr>p_action = act, p_model = ''device'', p_identifier = nd_name device,
                       p_desired = des, p_current = cur, p_diff = d\<rparr>))"

definition module_bay_proposal :: "DeviceState option \<Rightarrow> NormalizedModuleBay \<Rightarrow> Proposal" where
  "module_bay_proposal state bay =
     (let des =
            [(''name'', PStr (nb_name bay)),
             (''label'', PStr (case nb_label bay of
                                 None \<Rightarrow> nb_name bay
                               | Some l \<Rightarrow> if l \<noteq> [] then l else nb_name bay)),
             (''position'', opt_str (nb_position bay))];
          existing = (case state of
                        None \<Rightarrow> None
                      | Some st \<Rightarrow> map_of (ds_module_bays st) (nb_name bay));
          cur = (case existing of
                   None \<Rightarrow> None
                 | Some e \<Rightarrow>
                     if e \<noteq> [] then
                       Some [(''name'', dict_get e ''name''),
                             (''label'', dict_get e ''label''),
                             (''position'', dict_get e ''position'')]
                     else None)
      in case ProposalEngine_action_and_diff des cur (existing \<noteq> None) of
           (act, d) \<Rightarrow>
             \<lparr>p_action = act, p_model = ''module_bay'', p_identifier = nb_name bay,
              p_desired = des, p_current = cur, p_diff = d\<rparr>)"

definition module_current :: "pydict \<Rightarrow> pyerr + pydict" where
  "module_current existing =
     bind_result (py_get (or_empty_dict (dict_get existing ''module_bay'')) ''name'') (\<lambda>bay_name.
     bind_result (py_get (or_empty_dict (dict_get existing ''module_type'')) ''model'') (\<lambda>mt.
     bind_result (py_get (or_empty_dict (dict_get existing ''status'')) ''value'') (\<lambda>status.
     Inr [(''bay_name'', bay_name),
          (''module_type_model'', mt),
          (''status'', status),
          (''serial'', dict_get existing ''serial'')])))"

definition module_proposal :: "DeviceState option \<Rightarrow> NormalizedModule \<Rightarrow> pyerr + Proposal" where
  "module_proposal state module =
     (let des =
            [(''bay_name'', PStr (nm_bay_name module)),
             (''module_type_model'', PStr (nm_module_type_model module)),
             (''status'', PStr (nm_status module)),
             (''serial'', opt_str (nm_serial module))];
          existing = (case state of
                        None \<Rightarrow> None
                      | Some st \<Rightarrow> map_of (ds_modules st) (nm_bay_name module))
      in bind_result
           (case existing of
              None \<Rightarrow> Inr None
            | Some e \<Rightarrow>
                if e \<noteq> [] then bind_result (module_current e) (\<lambda>c. Inr (Some c))
                else Inr None)
           (\<lambda>cur.
              case ProposalEngine_action_and_diff des cur (existing \<noteq> None) of
                (act, d) \<Rightarrow>
                  Inr \<lparr>p_action = act, p_model = ''module'',
                       p_identifier = nm_bay_name module @ '':'' @ nm_module_type_model module,
                       p_desired = des, p_current = cur, p_diff = d\<rparr>))"

definition interface_desired :: "NormalizedInterface \<Rightarrow> pydict" where
  "interface_desired iface =
     [(''type'', PStr (ni_type_slug iface)),
      (''enabled'', PBool (ni_enabled iface)),
      (''description'', opt_str (ni_description iface))] @
     (case ni_lag iface of
        None \<Rightarrow> []
      | Some l \<Rightarrow> if l \<noteq> [] then [(''lag'', PStr l)] else [])"

definition interface_current :: "pydict \<Rightarrow> pyerr + pydict" where
  "interface_current existing =
     bind_result (py_get (or_empty_dict (dict_get existing ''type'')) ''value'') (\<lambda>ty.
       (let cur = [(''type'', ty),
                   (''enabled'', dict_get existing ''enabled''),
                   (''description'', dict_get existing ''description'')];
            lag = dict_get existing ''lag''
        in if py_truthy lag then
             bind_result (py_get lag ''name'')
               (\<lambda>n. if py_truthy n then Inr (dict_set cur ''lag'' n) else Inr cur)
           else Inr cur))"

definition interface_proposal ::
  "(string \<times> pydict) list \<Rightarrow> NormalizedInterface \<Rightarrow> pyerr + Proposal" where
  "interface_proposal existing_map iface =
     (let des = interface_desired iface;
          existing = map_of existing_map (ni_name iface)
      in bind_result
           (case existing of
              None \<Rightarrow> Inr None
            | Some e \<Rightarrow>
                if e \<noteq> [] then bind_result (interface_current e) (\<lambda>c. Inr (Some c))
                else Inr None)
           (\<lambda>cur.
              case ProposalEngine_action_and_diff des cur (existing \<noteq> None) of
                (act, d) \<Rightarrow>
                  Inr \<lparr>p_action = act, p_model = ''interface'', p_identifier = ni_name iface,
                       p_desired = des, p_current = cur, p_diff = d\<rparr>))"

text \<open>
  \<^verbatim>\<open>sorted(interfaces, key=lambda iface: (iface.type_slug != "lag", iface.name))\<close>: a
  stable sort by a pair, compared lexicographically, with \<^verbatim>\<open>False < True\<close> and strings
  compared by code point. \<^const>\<open>sort_key\<close> is the stable insertion sort.
\<close>

definition interface_sort_key :: "NormalizedInterface \<Rightarrow> bool \<times> string" where
  "interface_sort_key iface = (ni_type_slug iface \<noteq> ''lag'', ni_name iface)"

definition interfaces_proposals ::
  "NormalizedInterface list \<Rightarrow> DeviceState option \<Rightarrow> pyerr + Proposal list" where
  "interfaces_proposals interfaces state =
     (let existing_map = (case state of None \<Rightarrow> [] | Some st \<Rightarrow> ds_interfaces st);
          sorted_interfaces = sort_key interface_sort_key interfaces
      in map_result (interface_proposal existing_map) sorted_interfaces)"

definition lag_proposal ::
  "(string \<times> string list) list \<Rightarrow> (string \<times> pydict) list \<Rightarrow> NormalizedLag \<Rightarrow> Proposal" where
  "lag_proposal membership interfaces lag =
     (let desired_members = sort (remdups (nl_members lag));
          current_members =
            sort (case map_of membership (nl_name lag) of None \<Rightarrow> [] | Some ms \<Rightarrow> ms);
          cur = (if current_members \<noteq> []
                 then Some [(''members'', PList (map PStr current_members))] else None);
          exists = dict_contains interfaces (nl_name lag);
          des = [(''members'', PList (map PStr desired_members))]
      in case ProposalEngine_action_and_diff des cur exists of
           (act, d) \<Rightarrow>
             \<lparr>p_action = act, p_model = ''lag'', p_identifier = nl_name lag,
              p_desired = des, p_current = cur, p_diff = d\<rparr>)"

definition lag_proposals :: "NormalizedLag list \<Rightarrow> DeviceState option \<Rightarrow> Proposal list" where
  "lag_proposals lags state =
     (if lags = [] then []
      else
        (let membership = (case state of None \<Rightarrow> [] | Some st \<Rightarrow> ds_lag_membership st);
             interfaces = (case state of None \<Rightarrow> [] | Some st \<Rightarrow> ds_interfaces st)
         in map (lag_proposal membership interfaces) lags))"

definition build :: "netbox_api \<Rightarrow> NormalizedInventory \<Rightarrow> pyerr + ProposalBatch" where
  "build nb inventory =
     (let existing_device = devices_get nb (nd_name (inv_device inventory))
      in bind_result
           (case existing_device of
              None \<Rightarrow> Inr None
            | Some dev \<Rightarrow> bind_result (load_state nb dev) (\<lambda>st. Inr (Some st)))
           (\<lambda>state.
     bind_result (device_proposal inventory existing_device) (\<lambda>dp.
     bind_result (map_result (module_proposal state) (inv_modules inventory)) (\<lambda>mps.
     bind_result (interfaces_proposals (inv_interfaces inventory) state) (\<lambda>ips.
       Inr \<lparr>b_device = dp,
            b_module_bays = map (module_bay_proposal state) (inv_module_bays inventory),
            b_modules = mps,
            b_interfaces = ips,
            b_lags = lag_proposals (inv_lags inventory) state\<rparr>)))))"

section \<open>LAG membership in the Apply Orchestrator\<close>

text \<open>
  \<^verbatim>\<open>_apply_lag_membership\<close> reads and writes the interfaces of one device: \<^verbatim>\<open>get\<close> by
  name, \<^verbatim>\<open>filter\<close> by \<^verbatim>\<open>lag_id\<close>, and \<^verbatim>\<open>update({"lag": ..})\<close> of a record. The remote
  side is the list of the device's interface records, each with its identifier, its name
  and the identifier of the LAG it points at, together with the log of the updates
  issued. An exception leaves the updates made before it in place, so the result is the
  remote state reached and the exception, if any.
\<close>

record iface_record =
  if_id :: nat
  if_name :: string
  if_lag :: "nat option"

record remote_interfaces =
  ri_records :: "iface_record list"
  ri_updates :: "(string \<times> nat option) list"

definition interfaces_get :: "remote_interfaces \<Rightarrow> string \<Rightarrow> iface_record option" where
  "interfaces_get rs name = find (\<lambda>r. if_name r = name) (ri_records rs)"

definition interfaces_filter_lag :: "remote_interfaces \<Rightarrow> nat \<Rightarrow> iface_record list" where
  "interfaces_filter_lag rs lag_id = filter (\<lambda>r. if_lag r = Some lag_id) (ri_records rs)"

definition iface_update :: "remote_interfaces \<Rightarrow> iface_record \<Rightarrow> nat option \<Rightarrow> remote_interfaces" where
  "iface_update rs iface lag =
     \<lparr>ri_records = map (\<lambda>r. if if_id r = if_id iface then r\<lparr>if_lag := lag\<rparr> else r) (ri_records rs),
      ri_updates = ri_updates rs @ [(if_name iface, lag)]\<rparr>"

text \<open>
  \<^verbatim>\<open>set(proposal.desired.get("members", []))\<close>. The Proposal Engine stores a list of
  strings under \<^verbatim>\<open>"members"\<close>. A list or dictionary as an element is unhashable
  (\<^verbatim>\<open>TypeError\<close>); an element that is \<^verbatim>\<open>None\<close>, a boolean or an integer is no interface
  name, and the model reports it as \<^verbatim>\<open>TypeError\<close> as well.
\<close>

fun str_elems :: "pyval list \<Rightarrow> pyerr + string list" where
  "str_elems [] = Inr []"
| "str_elems (PStr s # xs) = bind_result (str_elems xs) (\<lambda>ys. Inr (s # ys))"
| "str_elems (_ # xs) = Inl TypeError"

definition desired_member_set :: "pydict \<Rightarrow> pyerr + string list" where
  "desired_member_set des =
     bind_result (py_iter (dict_get_default des ''members'' (PList [])))
       (\<lambda>xs. bind_result (str_elems xs) (\<lambda>ms. Inr (remdups ms)))"

fun add_members ::
  "string \<Rightarrow> nat \<Rightarrow> string list \<Rightarrow> remote_interfaces \<Rightarrow> pyerr option \<times> remote_interfaces" where
  "add_members lag_name lag_id [] rs = (None, rs)"
| "add_members lag_name lag_id (member # rest) rs =
     (case interfaces_get rs member of
        None \<Rightarrow>
          (Some (ValueError (''Interface '' @ [CHR 0x27] @ member @ [CHR 0x27] @
                             '' not found while adding to '' @ lag_name)), rs)
      | Some iface \<Rightarrow> add_members lag_name lag_id rest (iface_update rs iface (Some lag_id)))"

fun remove_members :: "string list \<Rightarrow> remote_interfaces \<Rightarrow> remote_interfaces" where
  "remove_members [] rs = rs"
| "remove_members (member # rest) rs =
     (case interfaces_get rs member of
        None \<Rightarrow> remove_members rest rs
      | Some iface \<Rightarrow> remove_members rest (iface_update rs iface None))"

definition apply_lag_proposal :: "Proposal \<Rightarrow> remote_interfaces \<Rightarrow> pyerr option \<times> remote_interfaces" where
  "apply_lag_proposal proposal rs =
     (if p_action proposal = ''noop'' then (None, rs)
      else
        (let lag_name = p_identifier proposal
         in case interfaces_get rs lag_name of
              None \<Rightarrow>
                (Some (ValueError (''LAG interface '' @ [CHR 0x27] @ lag_name @ [CHR 0x27] @
                                   '' not found when setting membership'')), rs)
            | Some lag_iface \<Rightarrow>
                (let lag_id = if_id lag_iface;
                     current_members = remdups (map if_name (interfaces_filter_lag rs lag_id))
                 in case desired_member_set (p_desired proposal) of
                      Inl e \<Rightarrow> (Some e, rs)
                    | Inr desired_set \<Rightarrow>
                        (let to_add = filter (\<lambda>m. m \<notin> set current_members) desired_set;
                             to_remove = filter (\<lambda>m. m \<notin> set desired_set) current_members
                         in case add_members lag_name lag_id (sort to_add) rs of
                              (Some e, rs') \<Rightarrow> (Some e, rs')
                            | (None, rs') \<Rightarrow> (None, remove_members (sort to_remove) rs')))))"

fun apply_lag_membership ::
  "Proposal list \<Rightarrow> remote_interfaces \<Rightarrow> pyerr option \<times> remote_interfaces" where
  "apply_lag_membership [] rs = (None, rs)"
| "apply_lag_membership (proposal # rest) rs =
     (case apply_lag_proposal proposal rs of
        (Some e, rs') \<Rightarrow> (Some e, rs')
      | (None, rs') \<Rightarrow> apply_lag_membership rest rs')"

text \<open>The members of a LAG in the remote system: the names of the records that point at it.\<close>

definition remote_members :: "remote_interfaces \<Rightarrow> nat \<Rightarrow> string set" where
  "remote_members rs lag_id = set (map if_name (interfaces_filter_lag rs lag_id))"

section \<open>Notions of the specification\<close>

text \<open>
  The desired fields whose current value differs, where a field the current map lacks
  reads as \<^verbatim>\<open>None\<close>.
\<close>

definition differing_fields :: "pydict \<Rightarrow> pydict \<Rightarrow> pydict" where
  "differing_fields des cur = filter (\<lambda>(k, v). \<not> py_eq (dict_get cur k) v) des"

text \<open>
  The slugification in the words of the specification: lowercase the input, let every
  maximal run of characters outside \<^verbatim>\<open>[a-z0-9]\<close> collapse to a single hyphen (each such
  character becomes a hyphen, adjacent hyphens become one), strip the leading and
  trailing hyphens.
\<close>

definition non_az09_to_hyphen :: "char \<Rightarrow> char" where
  "non_az09_to_hyphen c = (if is_az09 c then c else CHR ''-'')"

fun squeeze_hyphens :: "string \<Rightarrow> string" where
  "squeeze_hyphens [] = []"
| "squeeze_hyphens (a # s) =
     (if a = CHR ''-'' \<and> s \<noteq> [] \<and> hd s = CHR ''-'' then squeeze_hyphens s
      else a # squeeze_hyphens s)"

definition spec_slugify :: "string \<Rightarrow> string" where
  "spec_slugify v = strip_hyphens (squeeze_hyphens (map non_az09_to_hyphen (py_lower v)))"

text \<open>
  The key of a module in the harvester's dictionary, the pairs (bay name, model) that
  \<^verbatim>\<open>add_module\<close> records (both parts non-empty), and the invariant of the dictionary:
  its keys are distinct and each entry holds the module of its key.
\<close>

definition module_key :: "NormalizedModule \<Rightarrow> string \<times> string" where
  "module_key m = (nm_bay_name m, nm_module_type_model m)"

definition usable_pairs :: "(string \<times> string) list \<Rightarrow> (string \<times> string) set" where
  "usable_pairs xs = {bm \<in> set xs. fst bm \<noteq> [] \<and> snd bm \<noteq> []}"

definition entries_ok :: "((string \<times> string) \<times> NormalizedModule) list \<Rightarrow> bool" where
  "entries_ok es = (distinct (map fst es) \<and> map (\<lambda>e. module_key (snd e)) es = map fst es)"

text \<open>
  An interface proposal is of the LAG type when its desired \<^verbatim>\<open>type\<close> is \<^verbatim>\<open>"lag"\<close>, the
  literal the sort key of the code tests; the key of a proposal pairs this with its
  identifier, as the sort key of the code does for an interface.
\<close>

definition proposal_is_lag :: "Proposal \<Rightarrow> bool" where
  "proposal_is_lag p = (dict_get (p_desired p) ''type'' = PStr ''lag'')"

definition proposal_sort_key :: "Proposal \<Rightarrow> bool \<times> string" where
  "proposal_sort_key p = (\<not> proposal_is_lag p, p_identifier p)"


text \<open>
  Two notions for the remote interfaces: the records with the LAG reference of the
  interfaces named in a set replaced, and the store in which names and identifiers are
  unique, as they are for the interfaces of one device.
\<close>

definition set_lag_of :: "string set \<Rightarrow> nat option \<Rightarrow> iface_record list \<Rightarrow> iface_record list" where
  "set_lag_of names v records = map (\<lambda>r. if if_name r \<in> names then r\<lparr>if_lag := v\<rparr> else r) records"

definition store_ok :: "remote_interfaces \<Rightarrow> bool" where
  "store_ok rs = (distinct (map if_name (ri_records rs)) \<and> distinct (map if_id (ri_records rs)))"


section \<open>Example inputs\<close>

text \<open>
  Rules for the classifier: one that matches every candidate and has the empty string
  as its literal value, one that matches every candidate with the value \<^verbatim>\<open>b\<close>, and one
  that matches nothing. The library functions are not called by these rules.
\<close>

definition ex_lib :: pylib where
  "ex_lib = \<lparr>str_format = (\<lambda>t args kwargs. Inr t), str_upper = (\<lambda>s. s)\<rparr>"

definition ex_match :: re_match where
  "ex_match = \<lparr>m_groupdict = [], m_groups = []\<rparr>"

definition ex_rule_empty :: RegexRule where
  "ex_rule_empty =
     \<lparr>r_pattern = (\<lambda>s. Some ex_match), r_value = Some [], r_template = None,
      r_transform = None\<rparr>"

definition ex_rule_b :: RegexRule where
  "ex_rule_b =
     \<lparr>r_pattern = (\<lambda>s. Some ex_match), r_value = Some ''b'', r_template = None,
      r_transform = None\<rparr>"

definition ex_rule_never :: RegexRule where
  "ex_rule_never =
     \<lparr>r_pattern = (\<lambda>s. None), r_value = Some ''n'', r_template = None, r_transform = None\<rparr>"

definition ex_engine :: RulesEngine where
  "ex_engine =
     \<lparr>role_rules = [ex_rule_never], site_rules = [ex_rule_never],
      manufacturer_rules = [ex_rule_empty, ex_rule_b], device_type_rules = [ex_rule_never],
      defaults = [(''role_slug'', Some ''access-switch''), (''site_slug'', None),
                  (''manufacturer_slug'', None), (''device_type_slug'', None)]\<rparr>"

text \<open>
  The interfaces of the sample inventory of the simulation (connector\_cli.py), listed
  with the physical ports first.
\<close>

definition ex_iface :: "string \<Rightarrow> string \<Rightarrow> string option \<Rightarrow> string option \<Rightarrow> NormalizedInterface" where
  "ex_iface n t d l =
     \<lparr>ni_name = n, ni_type_slug = t, ni_enabled = True, ni_description = d, ni_lag = l,
      ni_mtu = None, ni_mac_address = None, ni_tagged_vlans = [], ni_untagged_vlan = None,
      ni_custom_fields = []\<rparr>"

definition ex_interfaces :: "NormalizedInterface list" where
  "ex_interfaces =
     [ex_iface ''1/1/2'' ''other'' (Some ''Access port'') None,
      ex_iface ''1/1/1'' ''other'' (Some ''Simulated member'') (Some ''LAG 1''),
      ex_iface ''LAG 1'' ''lag'' (Some ''Simulated uplink'') None]"


text \<open>
  The example of the specification for LAG membership: the LAG \<^verbatim>\<open>LAG 1\<close> has the members
  \<^verbatim>\<open>p1\<close> and \<^verbatim>\<open>p2\<close>, the proposal desires \<^verbatim>\<open>p2\<close> and \<^verbatim>\<open>p3\<close>; and the same remote
  interfaces without \<^verbatim>\<open>p3\<close>.
\<close>

definition ex_lag_proposal :: Proposal where
  "ex_lag_proposal =
     \<lparr>p_action = ''update'', p_model = ''lag'', p_identifier = ''LAG 1'',
      p_desired = [(''members'', PList [PStr ''p2'', PStr ''p3''])],
      p_current = Some [(''members'', PList [PStr ''p1'', PStr ''p2''])],
      p_diff = Some [(''members'', PList [PStr ''p2'', PStr ''p3''])]\<rparr>"

definition ex_remote :: remote_interfaces where
  "ex_remote =
     \<lparr>ri_records =
        [\<lparr>if_id = 1, if_name = ''LAG 1'', if_lag = None\<rparr>,
         \<lparr>if_id = 2, if_name = ''p1'', if_lag = Some 1\<rparr>,
         \<lparr>if_id = 3, if_name = ''p2'', if_lag = Some 1\<rparr>,
         \<lparr>if_id = 4, if_name = ''p3'', if_lag = None\<rparr>],
      ri_updates = []\<rparr>"

definition ex_remote_no_p3 :: remote_interfaces where
  "ex_remote_no_p3 =
     \<lparr>ri_records =
        [\<lparr>if_id = 1, if_name = ''LAG 1'', if_lag = None\<rparr>,
         \<lparr>if_id = 2, if_name = ''p1'', if_lag = Some 1\<rparr>,
         \<lparr>if_id = 3, if_name = ''p2'', if_lag = Some 1\<rparr>],
      ri_updates = []\<rparr>"

text \<open>
  A device with one LAG that has no members, as \<^verbatim>\<open>NormalizedLag(name="LAG 1")\<close> gives it,
  and a remote system that holds exactly this: the device with the same fields, the
  interface \<^verbatim>\<open>LAG 1\<close> of type \<^verbatim>\<open>lag\<close>, and no interface that points at it.
\<close>

definition ex_device :: NormalizedDevice where
  "ex_device =
     \<lparr>nd_name = ''SIM-SROS-01'', nd_site_slug = ''sim'', nd_role_slug = ''access-switch'',
      nd_manufacturer_slug = ''nokia'', nd_device_type_slug = ''nokia-7750-sr'',
      nd_status = ''active'', nd_serial = None, nd_asset_tag = None, nd_custom_fields = [],
      nd_tags = []\<rparr>"

definition ex_inventory_empty_lag :: NormalizedInventory where
  "ex_inventory_empty_lag =
     \<lparr>inv_device = ex_device, inv_module_bays = [], inv_modules = [],
      inv_interfaces = [ex_iface ''LAG 1'' ''lag'' None None],
      inv_lags = [\<lparr>nl_name = ''LAG 1'', nl_description = None, nl_members = [],
                   nl_enabled = True, nl_custom_fields = []\<rparr>]\<rparr>"

definition ex_device_record :: nb_record where
  "ex_device_record =
     \<lparr>rec_id = 1, rec_name = ''SIM-SROS-01'',
      rec_fields =
        [(''status'', PDict [(''value'', PStr ''active'')]),
         (''site'', PDict [(''slug'', PStr ''sim'')]),
         (''role'', PDict [(''slug'', PStr ''access-switch'')]),
         (''device_type'',
            PDict [(''slug'', PStr ''nokia-7750-sr''),
                   (''manufacturer'', PDict [(''slug'', PStr ''nokia'')])]),
         (''serial'', PNone), (''asset_tag'', PNone), (''tags'', PList []),
         (''custom_fields'', PDict [])]\<rparr>"

definition ex_lag_record :: nb_record where
  "ex_lag_record =
     \<lparr>rec_id = 10, rec_name = ''LAG 1'',
      rec_fields =
        [(''type'', PDict [(''value'', PStr ''lag'')]), (''enabled'', PBool True),
         (''description'', PNone), (''lag'', PNone)]\<rparr>"

definition ex_netbox_empty_lag :: netbox_api where
  "ex_netbox_empty_lag =
     \<lparr>devices_get = (\<lambda>name. if name = ''SIM-SROS-01'' then Some ex_device_record else None),
      module_bays_filter = (\<lambda>device_id. []),
      modules_filter = (\<lambda>device_id. []),
      interfaces_filter = (\<lambda>device_id. if device_id = 1 then [ex_lag_record] else [])\<rparr>"


definition ex_remote_lag_only :: remote_interfaces where
  "ex_remote_lag_only =
     \<lparr>ri_records = [\<lparr>if_id = 10, if_name = ''LAG 1'', if_lag = None\<rparr>], ri_updates = []\<rparr>"


section \<open>Properties of the diff\<close>

lemma py_eq_refl: "py_eq v v"
proof (induction v)
  case (PList xs)
  then show ?case by (simp add: list_all2_same)
next
  case (PDict m)
  have "list_all (\<lambda>k. case map_of m k of None \<Rightarrow> False
                 | Some v \<Rightarrow> (case map_of m k of None \<Rightarrow> False | Some w \<Rightarrow> py_eq v w))
        (map fst m)"
    unfolding list_all_iff
  proof
    fix k assume "k \<in> set (map fst m)"
    then obtain v where v: "map_of m k = Some v"
      by (metis map_of_eq_None_iff not_Some_eq set_map)
    then have "(k, v) \<in> set m" by (rule map_of_SomeD)
    with PDict have "py_eq v v" by fastforce
    with v show "case map_of m k of None \<Rightarrow> False
                 | Some v \<Rightarrow> (case map_of m k of None \<Rightarrow> False | Some w \<Rightarrow> py_eq v w)"
      by simp
  qed
  then show ?case by simp
qed simp_all

lemma dict_get_Nil: "dict_get [] k = PNone"
  by (simp add: dict_get_def)

lemma keys_dict_set: "fst ` set (dict_set d k v) = insert k (fst ` set d)"
  by (induction d) (force split: if_splits)+

lemma dict_set_fresh: "k \<notin> fst ` set d \<Longrightarrow> dict_set d k v = d @ [(k, v)]"
  by (induction d) auto

lemma keys_diff_loop: "fst ` set (diff_loop cur items acc) \<subseteq> fst ` set acc \<union> fst ` set items"
proof (induction items arbitrary: acc)
  case Nil
  show ?case by simp
next
  case (Cons kv items)
  obtain k v where kv: "kv = (k, v)" by (cases kv)
  show ?case
    using Cons.IH [of acc] Cons.IH [of "dict_set acc k v"]
    by (auto simp: kv Let_def keys_dict_set)
qed

lemma diff_loop_filter:
  "distinct (map fst items) \<Longrightarrow> fst ` set acc \<inter> fst ` set items = {} \<Longrightarrow>
   diff_loop cur items acc = acc @ filter (\<lambda>(k, v). \<not> py_eq (dict_get cur k) v) items"
proof (induction items arbitrary: acc)
  case Nil
  show ?case by simp
next
  case (Cons kv items)
  obtain k v where kv: "kv = (k, v)" by (cases kv)
  have cv: "(if cur \<noteq> [] then dict_get cur k else PNone) = dict_get cur k"
    by (simp add: dict_get_Nil)
  have fresh: "k \<notin> fst ` set acc" using Cons.prems(2) by (auto simp: kv)
  have d: "distinct (map fst items)" and knot: "k \<notin> fst ` set items"
    using Cons.prems(1) by (auto simp: kv)
  show ?case
  proof (cases "py_eq (dict_get cur k) v")
    case True
    have "fst ` set acc \<inter> fst ` set items = {}" using Cons.prems(2) by (auto simp: kv)
    from Cons.IH [OF d this] True show ?thesis by (simp add: kv cv)
  next
    case False
    have "fst ` set (acc @ [(k, v)]) \<inter> fst ` set items = {}"
      using Cons.prems(2) knot by (auto simp: kv)
    from Cons.IH [OF d this] False show ?thesis
      by (simp add: kv cv dict_set_fresh [OF fresh])
  qed
qed

lemma ProposalEngine_diff_Some:
  "distinct (map fst des) \<Longrightarrow> ProposalEngine_diff des (Some cur) = differing_fields des cur"
  using diff_loop_filter [of des "[]" cur]
  by (simp add: ProposalEngine_diff_def differing_fields_def)

lemma differing_fields_self: "distinct (map fst des) \<Longrightarrow> differing_fields des des = []"
proof -
  assume d: "distinct (map fst des)"
  have "\<And>k v. (k, v) \<in> set des \<Longrightarrow> py_eq (dict_get des k) v"
  proof -
    fix k v assume "(k, v) \<in> set des"
    with d have "map_of des k = Some v" by simp
    then show "py_eq (dict_get des k) v" by (simp add: dict_get_def py_eq_refl)
  qed
  then show ?thesis by (auto simp: differing_fields_def filter_empty_conv)
qed

lemma keys_ProposalEngine_diff: "fst ` set (ProposalEngine_diff des cur) \<subseteq> fst ` set des"
proof (cases cur)
  case None
  then show ?thesis by (auto simp: ProposalEngine_diff_def non_null_fields_def)
next
  case (Some c)
  with keys_diff_loop [of c des "[]"] show ?thesis by (simp add: ProposalEngine_diff_def)
qed


section \<open>Diff and action classification\<close>

text \<open>
  C2, as amended. For a desired map \<open>des\<close> (a dictionary, so its keys are distinct):
  against an existing remote object with current map \<open>cur\<close>, the diff is exactly the
  desired fields whose current value differs, and the action is \<^verbatim>\<open>update\<close> with that
  diff when it is non-empty and \<^verbatim>\<open>noop\<close> with no diff when it is empty; when the remote
  object does not exist the action is \<^verbatim>\<open>create\<close> and the diff is the desired map
  restricted to its non-null fields when that restriction is non-empty, and the whole
  desired map otherwise; when the current map equals the desired map the diff is empty
  and the action is \<^verbatim>\<open>noop\<close>.
\<close>

theorem diff_and_action_classification:
  assumes "distinct (map fst des)"
  shows "ProposalEngine_diff des (Some cur) = differing_fields des cur \<and>
         ProposalEngine_action_and_diff des (Some cur) True =
           (if differing_fields des cur \<noteq> [] then (''update'', Some (differing_fields des cur))
            else (''noop'', None)) \<and>
         ProposalEngine_action_and_diff des cur' False =
           (''create'', Some (if non_null_fields des \<noteq> [] then non_null_fields des else des)) \<and>
         ProposalEngine_diff des (Some des) = [] \<and>
         ProposalEngine_action_and_diff des (Some des) True = (''noop'', None)"
proof -
  note d = ProposalEngine_diff_Some [OF assms]
  have 1: "ProposalEngine_diff des (Some cur) = differing_fields des cur" by (rule d)
  have 2: "ProposalEngine_action_and_diff des (Some cur) True =
           (if differing_fields des cur \<noteq> [] then (''update'', Some (differing_fields des cur))
            else (''noop'', None))"
    by (simp add: ProposalEngine_action_and_diff_def d)
  have 3: "ProposalEngine_action_and_diff des cur' False =
           (''create'', Some (if non_null_fields des \<noteq> [] then non_null_fields des else des))"
    by (simp add: ProposalEngine_action_and_diff_def ProposalEngine_diff_def)
  have 4: "ProposalEngine_diff des (Some des) = []"
    by (simp add: d differing_fields_self [OF assms])
  have 5: "ProposalEngine_action_and_diff des (Some des) True = (''noop'', None)"
    by (simp add: ProposalEngine_action_and_diff_def 4)
  from 1 2 3 4 5 show ?thesis by blast
qed

text \<open>
  The example of the specification: desired \<^verbatim>\<open>{a:1, b:2}\<close> against current
  \<^verbatim>\<open>{a:1, b:3}\<close> gives the diff \<^verbatim>\<open>{b:2}\<close> and the action \<^verbatim>\<open>update\<close>.
\<close>

theorem diff_and_action_classification_witness:
  "distinct (map fst [(''a'', PInt 1), (''b'', PInt 2)]) \<and>
   ProposalEngine_diff [(''a'', PInt 1), (''b'', PInt 2)]
     (Some [(''a'', PInt 1), (''b'', PInt 3)]) = [(''b'', PInt 2)] \<and>
   ProposalEngine_action_and_diff [(''a'', PInt 1), (''b'', PInt 2)]
     (Some [(''a'', PInt 1), (''b'', PInt 3)]) True = (''update'', Some [(''b'', PInt 2)]) \<and>
   ProposalEngine_action_and_diff [(''a'', PInt 1), (''b'', PInt 2)] None False =
     (''create'', Some [(''a'', PInt 1), (''b'', PInt 2)])"
proof -
  have h: "distinct (map fst [(''a'', PInt 1), (''b'', PInt 2)])" by simp
  show ?thesis
    using diff_and_action_classification
      [OF h, of "[(''a'', PInt 1), (''b'', PInt 3)]" None]
    by (simp add: differing_fields_def non_null_fields_def dict_get_def)
qed

text \<open>
  The claim as stated fails where every desired field is null: for the desired map
  \<^verbatim>\<open>{a: None}\<close> and no remote object, the restriction to the non-null fields is empty,
  and the diff returned is the desired map itself.
\<close>

theorem create_diff_counterexample:
  "snd (ProposalEngine_action_and_diff [(''a'', PNone)] None False) = Some [(''a'', PNone)] \<and>
   non_null_fields [(''a'', PNone)] = [] \<and>
   snd (ProposalEngine_action_and_diff [(''a'', PNone)] None False)
     \<noteq> Some (non_null_fields [(''a'', PNone)])"
  by (simp add: ProposalEngine_action_and_diff_def ProposalEngine_diff_def non_null_fields_def)

section \<open>The diff plans no removals\<close>

text \<open>
  C8. Every key of the computed diff is a key of the desired map, for the diff of
  \<^verbatim>\<open>_diff\<close> and for the diff that \<^verbatim>\<open>_action_and_diff\<close> returns; a field that only the
  current map has is never in the diff.
\<close>

theorem diff_keys_are_desired_keys:
  "fst ` set (ProposalEngine_diff des cur) \<subseteq> fst ` set des \<and>
   (case snd (ProposalEngine_action_and_diff des cur exists) of
      None \<Rightarrow> True
    | Some d \<Rightarrow> fst ` set d \<subseteq> fst ` set des) \<and>
   (\<forall>k. k \<notin> fst ` set des \<longrightarrow> k \<notin> fst ` set (ProposalEngine_diff des cur))"
proof -
  have 1: "fst ` set (ProposalEngine_diff des cur) \<subseteq> fst ` set des"
    by (rule keys_ProposalEngine_diff)
  have 2: "(case snd (ProposalEngine_action_and_diff des cur exists) of
      None \<Rightarrow> True
    | Some d \<Rightarrow> fst ` set d \<subseteq> fst ` set des)"
    using keys_ProposalEngine_diff [of des cur] keys_ProposalEngine_diff [of des None]
    by (simp add: ProposalEngine_action_and_diff_def Let_def)
  from 1 have 3: "\<forall>k. k \<notin> fst ` set des \<longrightarrow> k \<notin> fst ` set (ProposalEngine_diff des cur)"
    by blast
  from 1 2 3 show ?thesis by blast
qed

theorem diff_keys_are_desired_keys_witness:
  "''b'' \<notin> fst ` set [(''a'', PInt 1)] \<and>
   ''b'' \<notin> fst ` set (ProposalEngine_diff [(''a'', PInt 1)]
                        (Some [(''a'', PInt 2), (''b'', PInt 3)]))"
proof -
  have h: "''b'' \<notin> fst ` set [(''a'', PInt 1)]" by simp
  with diff_keys_are_desired_keys
    [of "[(''a'', PInt 1)]" "Some [(''a'', PInt 2), (''b'', PInt 3)]" True]
  show ?thesis by blast
qed


section \<open>The classifier: first usable rule, default, failure\<close>

lemma RegexRule_apply_no_match:
  "r_pattern rule cand = None \<Longrightarrow> RegexRule_apply lib rule cand = Inr None"
  by (simp add: RegexRule_apply_def)

lemma rules_loop_skip:
  "\<forall>r \<in> set rules. RegexRule_apply lib r cand = Inr None \<or>
                     RegexRule_apply lib r cand = Inr (Some [])
   \<Longrightarrow> rules_loop lib cand (rules @ rest) = rules_loop lib cand rest"
  by (induction rules) auto

lemma rules_loop_none:
  "\<forall>r \<in> set rules. r_pattern r cand = None \<Longrightarrow> rules_loop lib cand rules = Inr None"
  using rules_loop_skip [of rules lib cand "[]"] by (simp add: RegexRule_apply_no_match)

text \<open>
  C4, as amended. Classification returns the value of the first rule, in declaration
  order, whose application gives a non-empty value: when every earlier rule either does
  not match or matches and derives no value or the empty string, and the rule derives the
  non-empty value \<open>v\<close>, the result is \<open>v\<close>, whatever the later rules are. This holds for
  \<^verbatim>\<open>_apply_rules\<close> (role, site, manufacturer) and for the rule loop of \<^verbatim>\<open>device_type_slug\<close>.
  In particular, for rules \<^verbatim>\<open>[A, B]\<close> that both match, where \<^verbatim>\<open>A\<close> derives a non-empty value,
  the result is the value of \<^verbatim>\<open>A\<close>.
\<close>

theorem first_usable_rule_wins:
  assumes "\<forall>r \<in> set before. RegexRule_apply lib r cand = Inr None \<or>
                           RegexRule_apply lib r cand = Inr (Some [])"
      and "RegexRule_apply lib rule cand = Inr (Some v)" and "v \<noteq> []"
  shows "RulesEngine_apply_rules lib eng cand (before @ rule # later) key = Inr v \<and>
         device_type_slug lib (eng\<lparr>device_type_rules := before @ rule # later\<rparr>) cand = Inr v"
  using assms rules_loop_skip [of before lib cand "rule # later"]
  by (simp add: RulesEngine_apply_rules_def device_type_slug_def)

theorem first_usable_rule_wins_witness:
  "RegexRule_apply ex_lib ex_rule_b ''SIM-SROS-01'' = Inr (Some ''b'') \<and>
   RulesEngine_apply_rules ex_lib ex_engine ''SIM-SROS-01''
     ([ex_rule_never] @ ex_rule_b # [ex_rule_empty]) ''role_slug'' = Inr ''b''"
proof -
  have 1: "\<forall>r \<in> set [ex_rule_never].
             RegexRule_apply ex_lib r ''SIM-SROS-01'' = Inr None \<or>
             RegexRule_apply ex_lib r ''SIM-SROS-01'' = Inr (Some [])"
    by (simp add: RegexRule_apply_def ex_rule_never_def)
  have 2: "RegexRule_apply ex_lib ex_rule_b ''SIM-SROS-01'' = Inr (Some ''b'')"
    by (simp add: RegexRule_apply_def ex_rule_b_def)
  have 3: "''b'' \<noteq> []" by simp
  from first_usable_rule_wins [OF 1 2 3, of ex_engine "[ex_rule_empty]" "''role_slug''"] 2
  show ?thesis by simp
qed

text \<open>
  The claim as stated fails for a first matching rule that derives the empty string: of
  two rules that both match, the first with the literal value \<^verbatim>\<open>""\<close> and the second with
  the value \<^verbatim>\<open>b\<close>, the classification returns the value of the second.
\<close>

theorem later_rule_wins_counterexample:
  "r_pattern ex_rule_empty ''SIM-SROS-01'' \<noteq> None \<and>
   r_pattern ex_rule_b ''SIM-SROS-01'' \<noteq> None \<and>
   RegexRule_apply ex_lib ex_rule_empty ''SIM-SROS-01'' = Inr (Some []) \<and>
   RegexRule_apply ex_lib ex_rule_b ''SIM-SROS-01'' = Inr (Some ''b'') \<and>
   manufacturer_rules ex_engine = [ex_rule_empty, ex_rule_b] \<and>
   manufacturer_slug ex_lib ex_engine ''SIM-SROS-01'' = Inr ''b''"
  by (simp add: manufacturer_slug_def RulesEngine_apply_rules_def RegexRule_apply_def
      ex_rule_empty_def ex_rule_b_def ex_engine_def)

text \<open>
  C6. When no rule matches the candidate, \<^verbatim>\<open>_apply_rules\<close> returns the default of its
  category if one is configured, and raises the error that names the category if none
  is. A default is configured when the defaults hold a non-empty string for the key: this
  is the test \<^verbatim>\<open>if default_value:\<close> of the code. \<^verbatim>\<open>role_slug\<close>, \<^verbatim>\<open>site_slug\<close> and
  \<^verbatim>\<open>manufacturer_slug\<close> are \<^verbatim>\<open>_apply_rules\<close> with their rule list and their key. No value of
  a rule is returned.
\<close>

theorem default_or_classification_error:
  assumes "\<forall>r \<in> set rules. r_pattern r cand = None"
  shows "(\<forall>d. map_of (defaults eng) key = Some (Some d) \<and> d \<noteq> [] \<longrightarrow>
            RulesEngine_apply_rules lib eng cand rules key = Inr d) \<and>
         (map_of (defaults eng) key = None \<or> map_of (defaults eng) key = Some None \<or>
          map_of (defaults eng) key = Some (Some []) \<longrightarrow>
            RulesEngine_apply_rules lib eng cand rules key =
              Inl (ValueError (''No rule matched for '' @ key @ '' and no default configured'')))"
  using rules_loop_none [OF assms, of lib]
  by (auto simp: RulesEngine_apply_rules_def truthy_default_def)

theorem default_or_classification_error_witness:
  "role_rules ex_engine = [ex_rule_never] \<and> site_rules ex_engine = [ex_rule_never] \<and>
   r_pattern ex_rule_never ''SIM-SROS-01'' = None \<and>
   role_slug ex_lib ex_engine ''SIM-SROS-01'' = Inr ''access-switch'' \<and>
   site_slug ex_lib ex_engine ''SIM-SROS-01'' =
     Inl (ValueError ''No rule matched for site_slug and no default configured'')"
proof -
  have 1: "\<forall>r \<in> set (role_rules ex_engine). r_pattern r ''SIM-SROS-01'' = None"
    by (simp add: ex_engine_def ex_rule_never_def)
  have 2: "\<forall>r \<in> set (site_rules ex_engine). r_pattern r ''SIM-SROS-01'' = None"
    by (simp add: ex_engine_def ex_rule_never_def)
  have 3: "map_of (defaults ex_engine) ''role_slug'' = Some (Some ''access-switch'')"
    by (simp add: ex_engine_def)
  have 4: "map_of (defaults ex_engine) ''site_slug'' = Some None"
    by (simp add: ex_engine_def)
  from default_or_classification_error [OF 1, of ex_engine "''role_slug''" ex_lib] 3
  have a: "role_slug ex_lib ex_engine ''SIM-SROS-01'' = Inr ''access-switch''"
    by (simp add: role_slug_def)
  from default_or_classification_error [OF 2, of ex_engine "''site_slug''" ex_lib] 4
  have b: "site_slug ex_lib ex_engine ''SIM-SROS-01'' =
     Inl (ValueError ''No rule matched for site_slug and no default configured'')"
    by (simp add: site_slug_def)
  have c: "role_rules ex_engine = [ex_rule_never] \<and> site_rules ex_engine = [ex_rule_never] \<and>
           r_pattern ex_rule_never ''SIM-SROS-01'' = None"
    by (simp add: ex_engine_def ex_rule_never_def)
  from a b c show ?thesis by blast
qed


section \<open>Slugification\<close>

lemma squeeze_hyphens_Nil_iff [simp]: "squeeze_hyphens s = [] \<longleftrightarrow> s = []"
  by (induction s) auto

lemma hd_squeeze_hyphens [simp]: "hd (squeeze_hyphens s) = hd s"
  by (induction s) auto

lemma replace_dd_Nil_iff [simp]: "replace_dd s = [] \<longleftrightarrow> s = []"
  by (induction s rule: replace_dd.induct) auto

lemma hd_replace_dd [simp]: "hd (replace_dd s) = hd s"
  by (induction s rule: replace_dd.induct) auto

lemma squeeze_no_dd: "\<not> contains_dd s \<Longrightarrow> squeeze_hyphens s = s"
  by (induction s rule: contains_dd.induct) auto

lemma squeeze_replace_dd: "squeeze_hyphens (replace_dd s) = squeeze_hyphens s"
  by (induction s rule: replace_dd.induct) auto

lemma collapse_loop_squeeze: "collapse_loop s = squeeze_hyphens s"
proof (induction s rule: collapse_loop.induct)
  case (1 s)
  show ?case
  proof (cases "contains_dd s")
    case True
    with 1 show ?thesis by (simp add: collapse_loop.simps [of s] squeeze_replace_dd)
  next
    case False
    then show ?thesis by (simp add: collapse_loop.simps [of s] squeeze_no_dd)
  qed
qed

lemma hyphen_not_az09 [simp]: "\<not> is_az09 CHR ''-''"
  by (simp add: is_az09_def)

lemma squeeze_hyphen_run:
  "squeeze_hyphens (CHR ''-'' # map non_az09_to_hyphen cs) =
   CHR ''-'' # squeeze_hyphens (map non_az09_to_hyphen (dropWhile (\<lambda>x. \<not> is_az09 x) cs))"
  by (induction cs) (auto simp: non_az09_to_hyphen_def)

lemma re_sub_squeeze: "re_sub_non_az09 x = squeeze_hyphens (map non_az09_to_hyphen x)"
proof (induction x rule: re_sub_non_az09.induct)
  case 1
  show ?case by simp
next
  case (2 c cs)
  show ?case
  proof (cases "is_az09 c")
    case True
    then have "c \<noteq> CHR ''-''" by auto
    with True 2 show ?thesis by (simp add: non_az09_to_hyphen_def)
  next
    case False
    have m: "map non_az09_to_hyphen (c # cs) = CHR ''-'' # map non_az09_to_hyphen cs"
      using False by (simp add: non_az09_to_hyphen_def)
    have "re_sub_non_az09 (c # cs) =
      CHR ''-'' # re_sub_non_az09 (dropWhile (\<lambda>x. \<not> is_az09 x) cs)"
      using False by simp
    also have "\<dots> =
      CHR ''-'' # squeeze_hyphens (map non_az09_to_hyphen (dropWhile (\<lambda>x. \<not> is_az09 x) cs))"
      using 2(2) [OF False] by simp
    also have "\<dots> = squeeze_hyphens (CHR ''-'' # map non_az09_to_hyphen cs)"
      by (simp only: squeeze_hyphen_run)
    also have "\<dots> = squeeze_hyphens (map non_az09_to_hyphen (c # cs))"
      by (simp only: m)
    finally show ?thesis .
  qed
qed

lemma squeeze_dropWhile:
  "dropWhile (\<lambda>c. c = CHR ''-'') (squeeze_hyphens s) = squeeze_hyphens (dropWhile (\<lambda>c. c = CHR ''-'') s)"
proof (induction s)
  case Nil
  show ?case by simp
next
  case (Cons a s)
  show ?case
  proof (cases "a = CHR ''-''")
    case False
    then show ?thesis by simp
  next
    case True
    show ?thesis
    proof (cases "s \<noteq> [] \<and> hd s = CHR ''-''")
      case True
      with \<open>a = CHR ''-''\<close> Cons show ?thesis by simp
    next
      case False
      with \<open>a = CHR ''-''\<close> Cons show ?thesis by simp
    qed
  qed
qed

lemma squeeze_snoc:
  "squeeze_hyphens (xs @ [a]) =
   (if a = CHR ''-'' \<and> xs \<noteq> [] \<and> last xs = CHR ''-'' then squeeze_hyphens xs
    else squeeze_hyphens xs @ [a])"
  by (induction xs) (auto simp: hd_append)

lemma squeeze_rev: "squeeze_hyphens (rev s) = rev (squeeze_hyphens s)"
  by (induction s) (auto simp: squeeze_snoc last_rev)

lemma strip_squeeze: "strip_hyphens (squeeze_hyphens s) = squeeze_hyphens (strip_hyphens s)"
  by (simp add: strip_hyphens_def strip_where_def squeeze_dropWhile squeeze_rev [symmetric])

lemma dropWhile_map_weaker:
  "(\<And>x. P x \<Longrightarrow> Q (g x)) \<Longrightarrow> dropWhile Q (map g (dropWhile P s)) = dropWhile Q (map g s)"
  by (induction s) auto

lemma dropWhile_rev_dropWhile_rev:
  "rev (dropWhile P (rev (dropWhile P s))) = dropWhile P (rev (dropWhile P (rev s)))"
proof (cases "\<forall>x \<in> set s. P x")
  case True
  then have a: "dropWhile P s = []" and b: "dropWhile P (rev s) = []" by simp_all
  show ?thesis unfolding a b by simp
next
  case False
  define t where "t = takeWhile P s"
  define d where "d = dropWhile P s"
  have s: "s = t @ d" by (simp add: t_def d_def)
  have tP: "\<And>x. x \<in> set t \<Longrightarrow> P x" by (auto simp: t_def dest: set_takeWhileD)
  from False have dne: "d \<noteq> []" by (simp add: d_def)
  then obtain y ys where d: "d = y # ys" by (cases d) auto
  have ny: "\<not> P y" using d hd_dropWhile [of P s] dne by (simp add: d_def [symmetric])
  have rd: "dropWhile P (rev d) = dropWhile P (rev ys) @ [y]"
    using ny by (simp add: d dropWhile_append3)
  have "dropWhile P (rev s) = dropWhile P (rev d) @ rev t"
    using ny by (simp add: s d dropWhile_append3)
  then have "dropWhile P (rev (dropWhile P (rev s))) = dropWhile P (t @ rev (dropWhile P (rev d)))"
    by simp
  also have "\<dots> = dropWhile P (rev (dropWhile P (rev d)))"
    using tP by simp
  also have "\<dots> = rev (dropWhile P (rev d))"
    using ny by (simp add: rd)
  finally show ?thesis by (simp add: d_def)
qed

lemma strip_where_rev: "strip_where Q (rev x) = rev (strip_where Q x)"
  using dropWhile_rev_dropWhile_rev [of Q "rev x"] by (simp add: strip_where_def)

lemma strip_where_map_strip_where:
  assumes "\<And>x. P x \<Longrightarrow> Q (g x)"
  shows "strip_where Q (map g (strip_where P v)) = strip_where Q (map g v)"
proof -
  have front: "\<And>s. strip_where Q (map g (dropWhile P s)) = strip_where Q (map g s)"
    by (simp add: strip_where_def dropWhile_map_weaker [of P Q g, OF assms])
  have "strip_where Q (map g (strip_where P v)) =
        strip_where Q (rev (map g (dropWhile P (rev (dropWhile P v)))))"
    by (simp add: strip_where_def rev_map)
  also have "\<dots> = rev (strip_where Q (map g (dropWhile P (rev (dropWhile P v)))))"
    by (rule strip_where_rev)
  also have "\<dots> = rev (strip_where Q (map g (rev (dropWhile P v))))"
    by (simp only: front)
  also have "\<dots> = rev (strip_where Q (rev (map g (dropWhile P v))))"
    by (simp only: rev_map)
  also have "\<dots> = strip_where Q (map g (dropWhile P v))"
    by (simp only: strip_where_rev rev_rev_ident)
  also have "\<dots> = strip_where Q (map g v)"
    by (rule front)
  finally show ?thesis .
qed

lemma py_lower_char_id:
  "\<not> ((65 \<le> (of_char c :: nat) \<and> (of_char c :: nat) \<le> 90) \<or>
       (192 \<le> (of_char c :: nat) \<and> (of_char c :: nat) \<le> 214) \<or>
       (216 \<le> (of_char c :: nat) \<and> (of_char c :: nat) \<le> 222)) \<Longrightarrow>
   py_lower_char c = c"
  unfolding py_lower_char_def Let_def by (simp only: if_False)

lemma space_to_hyphen: "py_isspace c \<Longrightarrow> non_az09_to_hyphen (py_lower_char c) = CHR ''-''"
proof -
  assume sp: "py_isspace c"
  define n where "n = (of_char c :: nat)"
  have n: "(9 \<le> n \<and> n \<le> 13) \<or> (28 \<le> n \<and> n \<le> 32) \<or> n = 133 \<or> n = 160"
    using sp unfolding py_isspace_def Let_def n_def [symmetric] .
  then have "\<not> ((65 \<le> n \<and> n \<le> 90) \<or> (192 \<le> n \<and> n \<le> 214) \<or> (216 \<le> n \<and> n \<le> 222))"
    by linarith
  then have l: "py_lower_char c = c" unfolding n_def by (rule py_lower_char_id)
  have "\<not> ((48 \<le> n \<and> n \<le> 57) \<or> (97 \<le> n \<and> n \<le> 122))" using n by linarith
  then have "\<not> is_az09 c" unfolding is_az09_def Let_def n_def [symmetric] .
  with l show ?thesis by (simp add: non_az09_to_hyphen_def)
qed

lemma RulesEngine_slugify_spec: "RulesEngine_slugify v = spec_slugify v"
proof -
  let ?g = "\<lambda>c. non_az09_to_hyphen (py_lower_char c)"
  have "RulesEngine_slugify v =
        strip_hyphens (squeeze_hyphens (map ?g (strip_where py_isspace v)))"
    by (simp add: RulesEngine_slugify_def re_sub_squeeze py_lower_def py_strip_def o_def)
  also have "\<dots> = squeeze_hyphens (strip_hyphens (map ?g (strip_where py_isspace v)))"
    by (rule strip_squeeze)
  also have "\<dots> = squeeze_hyphens (strip_hyphens (map ?g v))"
    unfolding strip_hyphens_def
    by (simp only: strip_where_map_strip_where [of py_isspace "\<lambda>c. c = CHR ''-''" ?g, OF space_to_hyphen])
  also have "\<dots> = strip_hyphens (squeeze_hyphens (map ?g v))"
    by (rule strip_squeeze [symmetric])
  finally show ?thesis by (simp add: spec_slugify_def py_lower_def o_def)
qed

lemma py_lower_char_upper:
  assumes "(65 \<le> (of_char c :: nat) \<and> (of_char c :: nat) \<le> 90) \<or>
           (192 \<le> (of_char c :: nat) \<and> (of_char c :: nat) \<le> 214) \<or>
           (216 \<le> (of_char c :: nat) \<and> (of_char c :: nat) \<le> 222)"
  shows "(of_char (py_lower_char c) :: nat) = of_char c + 32"
proof -
  from assms have le: "(of_char c :: nat) + 32 < 256" by linarith
  have "py_lower_char c = char_of ((of_char c :: nat) + 32)"
    unfolding py_lower_char_def Let_def using assms by (simp only: if_True)
  then have "(of_char (py_lower_char c) :: nat) = ((of_char c :: nat) + 32) mod 256"
    by (simp only: of_char_of)
  with le show ?thesis by (simp only: mod_less)
qed

lemma of_char_py_lower_char:
  "(of_char (py_lower_char c) :: nat) =
   (let n = of_char c
    in if (65 \<le> n \<and> n \<le> 90) \<or> (192 \<le> n \<and> n \<le> 214) \<or> (216 \<le> n \<and> n \<le> 222)
       then n + 32 else n)"
proof (cases "(65 \<le> (of_char c :: nat) \<and> (of_char c :: nat) \<le> 90) \<or>
           (192 \<le> (of_char c :: nat) \<and> (of_char c :: nat) \<le> 214) \<or>
           (216 \<le> (of_char c :: nat) \<and> (of_char c :: nat) \<le> 222)")
  case True
  from py_lower_char_upper [OF True] True show ?thesis unfolding Let_def by (simp only: if_True)
next
  case False
  from py_lower_char_id [OF False] False show ?thesis unfolding Let_def by (simp only: if_False)
qed

lemma py_isalnum_ascii:
  assumes "(of_char c :: nat) < 128"
  shows "py_isalnum c =
     ((48 \<le> (of_char c :: nat) \<and> (of_char c :: nat) \<le> 57) \<or>
      (65 \<le> (of_char c :: nat) \<and> (of_char c :: nat) \<le> 90) \<or>
      (97 \<le> (of_char c :: nat) \<and> (of_char c :: nat) \<le> 122))"
  using assms unfolding py_isalnum_def Let_def by simp

lemma lower_ascii:
  assumes "(of_char c :: nat) < 128"
  shows "py_isalnum (py_lower_char c) = is_az09 (py_lower_char c)"
proof -
  define m where "m = (of_char (py_lower_char c) :: nat)"
  have m: "m < 128" and nu: "\<not> (65 \<le> m \<and> m \<le> 90)"
    using assms unfolding m_def of_char_py_lower_char Let_def by (simp_all split: if_splits)
  from m have "py_isalnum (py_lower_char c) =
     ((48 \<le> m \<and> m \<le> 57) \<or> (65 \<le> m \<and> m \<le> 90) \<or> (97 \<le> m \<and> m \<le> 122))"
    unfolding m_def by (rule py_isalnum_ascii)
  with nu show ?thesis unfolding is_az09_def Let_def m_def [symmetric] by blast
qed

lemma set_strip_where: "set (strip_where P s) \<subseteq> set s"
  by (auto simp: strip_where_def dest!: set_dropWhileD)

lemma in_strip_where: "x \<in> set s \<Longrightarrow> \<not> P x \<Longrightarrow> x \<in> set (strip_where P s)"
proof -
  assume x: "x \<in> set s" and n: "\<not> P x"
  have 1: "\<And>t. x \<in> set t \<Longrightarrow> x \<in> set (dropWhile P t)"
  proof -
    fix t assume "x \<in> set t"
    then show "x \<in> set (dropWhile P t)" using n by (induction t) auto
  qed
  from 1 [OF x] have "x \<in> set (rev (dropWhile P s))" by simp
  from 1 [OF this] show ?thesis by (simp add: strip_where_def)
qed

lemma set_squeeze_hyphens: "set (squeeze_hyphens s) = set s"
proof (induction s)
  case Nil
  show ?case by simp
next
  case (Cons a s)
  show ?case
  proof (cases "a = CHR ''-'' \<and> s \<noteq> [] \<and> hd s = CHR ''-''")
    case True
    then have "a \<in> set s" by (cases s) simp_all
    with True Cons show ?thesis by (simp add: insert_absorb)
  next
    case False
    with Cons show ?thesis by auto
  qed
qed


text \<open>
  After \<^verbatim>\<open>strip().lower()\<close> the two routines differ in one test only: \<^verbatim>\<open>slugify\<close> keeps the
  characters that \<^verbatim>\<open>isalnum\<close> accepts, \<^verbatim>\<open>_slugify\<close> those of \<^verbatim>\<open>[a-z0-9]\<close>. On any string the
  two remainders agree exactly when no character passes the first test and fails the
  second; this does not depend on what \<^verbatim>\<open>lower\<close> does.
\<close>

lemma az09_isalnum: "is_az09 c \<Longrightarrow> py_isalnum c"
  unfolding is_az09_def py_isalnum_def Let_def by blast

lemma hyphen_not_isalnum: "\<not> py_isalnum CHR ''-''"
  by (simp add: py_isalnum_def)

lemma slugify_tails_agree:
  assumes "\<forall>c \<in> set s. py_isalnum c \<longrightarrow> is_az09 c"
  shows "strip_hyphens (collapse_loop (map (\<lambda>ch. if py_isalnum ch then ch else CHR ''-'') s)) =
         strip_hyphens (re_sub_non_az09 s)"
proof -
  have "\<And>c. c \<in> set s \<Longrightarrow>
          (if py_isalnum c then c else CHR ''-'') = non_az09_to_hyphen c"
  proof -
    fix c assume "c \<in> set s"
    with assms have "py_isalnum c = is_az09 c" using az09_isalnum [of c] by blast
    then show "(if py_isalnum c then c else CHR ''-'') = non_az09_to_hyphen c"
      by (simp add: non_az09_to_hyphen_def)
  qed
  then have "map (\<lambda>ch. if py_isalnum ch then ch else CHR ''-'') s = map non_az09_to_hyphen s"
    by simp
  then show ?thesis by (simp only: collapse_loop_squeeze re_sub_squeeze)
qed

lemma set_re_sub_non_az09: "x \<in> set (re_sub_non_az09 s) \<Longrightarrow> is_az09 x \<or> x = CHR ''-''"
  by (auto simp: re_sub_squeeze set_squeeze_hyphens non_az09_to_hyphen_def split: if_splits)

lemma slugify_tails_differ:
  assumes "c \<in> set s" and "py_isalnum c" and "\<not> is_az09 c"
  shows "strip_hyphens (collapse_loop (map (\<lambda>ch. if py_isalnum ch then ch else CHR ''-'') s)) \<noteq>
         strip_hyphens (re_sub_non_az09 s)"
proof -
  let ?kept = "map (\<lambda>ch. if py_isalnum ch then ch else CHR ''-'') s"
  from assms(2) have nh: "c \<noteq> CHR ''-''" using hyphen_not_isalnum by blast
  from assms(1,2) have "c \<in> set ?kept" by force
  then have "c \<in> set (squeeze_hyphens ?kept)" by (simp only: set_squeeze_hyphens)
  from in_strip_where [of c _ "\<lambda>c. c = CHR ''-''", OF this] nh
  have 1: "c \<in> set (strip_hyphens (collapse_loop ?kept))"
    by (simp add: collapse_loop_squeeze strip_hyphens_def)
  have "c \<notin> set (re_sub_non_az09 s)"
    using set_re_sub_non_az09 [of c s] assms(3) nh by blast
  then have 2: "c \<notin> set (strip_hyphens (re_sub_non_az09 s))"
    using set_strip_where [of "\<lambda>c. c = CHR ''-''" "re_sub_non_az09 s"]
    by (auto simp: strip_hyphens_def)
  from 1 2 show ?thesis by metis
qed

lemma slugify_agree_iff_cleaned:
  "slugify v = RulesEngine_slugify v \<longleftrightarrow>
   (\<forall>c \<in> set (py_lower (py_strip v)). py_isalnum c \<longrightarrow> is_az09 c)"
  using slugify_tails_agree [of "py_lower (py_strip v)"]
        slugify_tails_differ [of _ "py_lower (py_strip v)"]
  unfolding slugify_def RulesEngine_slugify_def Let_def by blast

lemma ascii_cleaned:
  assumes "\<forall>c \<in> set v. (of_char c :: nat) < 128"
  shows "\<forall>c \<in> set (py_lower (py_strip v)). py_isalnum c \<longrightarrow> is_az09 c"
proof
  fix c assume "c \<in> set (py_lower (py_strip v))"
  then obtain d where d: "d \<in> set (py_strip v)" and c: "c = py_lower_char d"
    by (auto simp: py_lower_def)
  from d have "d \<in> set v" using set_strip_where [of py_isspace v] by (auto simp: py_strip_def)
  with assms have "(of_char d :: nat) < 128" by blast
  then have "py_isalnum (py_lower_char d) = is_az09 (py_lower_char d)" by (rule lower_ascii)
  with c show "py_isalnum c \<longrightarrow> is_az09 c" by simp
qed


text \<open>
  C5. When no device-type rule matches the raw string and no default is configured (the
  defaults hold no entry, \<^verbatim>\<open>None\<close> or the empty string for \<^verbatim>\<open>device_type_slug\<close>),
  \<^verbatim>\<open>device_type_slug\<close> returns the slugification of the raw string as the specification
  words it.
\<close>

theorem device_type_slugify_fallback:
  assumes "\<forall>r \<in> set (device_type_rules eng). r_pattern r device_type = None"
      and "map_of (defaults eng) ''device_type_slug'' = None \<or>
           map_of (defaults eng) ''device_type_slug'' = Some None \<or>
           map_of (defaults eng) ''device_type_slug'' = Some (Some [])"
  shows "device_type_slug lib eng device_type = Inr (spec_slugify device_type)"
  using rules_loop_none [OF assms(1), of lib] assms(2)
  by (auto simp: device_type_slug_def truthy_default_def RulesEngine_slugify_spec)

theorem device_type_slugify_fallback_witness:
  "device_type_rules ex_engine = [ex_rule_never] \<and>
   r_pattern ex_rule_never ''Unknown Model 5000'' = None \<and>
   map_of (defaults ex_engine) ''device_type_slug'' = Some None \<and>
   device_type_slug ex_lib ex_engine ''Unknown Model 5000'' = Inr ''unknown-model-5000''"
proof -
  have 1: "\<forall>r \<in> set (device_type_rules ex_engine). r_pattern r ''Unknown Model 5000'' = None"
    by (simp add: ex_engine_def ex_rule_never_def)
  have 2: "map_of (defaults ex_engine) ''device_type_slug'' = Some None"
    by (simp add: ex_engine_def)
  then have 3: "map_of (defaults ex_engine) ''device_type_slug'' = None \<or>
           map_of (defaults ex_engine) ''device_type_slug'' = Some None \<or>
           map_of (defaults ex_engine) ''device_type_slug'' = Some (Some [])"
    by simp
  have 4: "spec_slugify ''Unknown Model 5000'' = ''unknown-model-5000''"
    by code_simp
  have 5: "device_type_rules ex_engine = [ex_rule_never] \<and>
           r_pattern ex_rule_never ''Unknown Model 5000'' = None"
    by (simp add: ex_engine_def ex_rule_never_def)
  from device_type_slugify_fallback [OF 1 3, of ex_lib] 2 4 5 show ?thesis by simp
qed

text \<open>
  C10, as amended. The module-level \<^verbatim>\<open>slugify\<close> and the classifier's \<^verbatim>\<open>_slugify\<close> return
  the same result exactly when every character of the stripped and lower-cased input
  that \<^verbatim>\<open>str.isalnum\<close> accepts is in \<^verbatim>\<open>[a-z0-9]\<close>. In particular they agree on every input
  of ASCII characters only. The condition is on the lower-cased string: a letter that
  \<^verbatim>\<open>lower\<close> takes into \<^verbatim>\<open>[a-z0-9]\<close> does not make the routines differ.
\<close>

theorem slugify_routines_agree_iff:
  "(slugify v = RulesEngine_slugify v \<longleftrightarrow>
      (\<forall>c \<in> set (py_lower (py_strip v)). py_isalnum c \<longrightarrow> is_az09 c)) \<and>
   ((\<forall>c \<in> set v. (of_char c :: nat) < 128) \<longrightarrow> slugify v = RulesEngine_slugify v)"
  using slugify_agree_iff_cleaned [of v] ascii_cleaned [of v] by blast

text \<open>
  An input of ASCII characters: both routines give \<^verbatim>\<open>sim-sros-01-lab\<close>.
\<close>

theorem slugify_routines_agree_iff_witness:
  "py_lower (py_strip ''  SIM-SROS-01 (lab) '') = ''sim-sros-01 (lab)'' \<and>
   slugify ''  SIM-SROS-01 (lab) '' = RulesEngine_slugify ''  SIM-SROS-01 (lab) '' \<and>
   RulesEngine_slugify ''  SIM-SROS-01 (lab) '' = ''sim-sros-01-lab''"
proof -
  have l: "py_lower (py_strip ''  SIM-SROS-01 (lab) '') = ''sim-sros-01 (lab)''"
    by code_simp
  have "\<forall>c \<in> set ''sim-sros-01 (lab)''. py_isalnum c \<longrightarrow> is_az09 c"
    by (simp add: py_isalnum_def is_az09_def)
  with slugify_routines_agree_iff [of "''  SIM-SROS-01 (lab) ''"] l
  have "slugify ''  SIM-SROS-01 (lab) '' = RulesEngine_slugify ''  SIM-SROS-01 (lab) ''"
    by simp
  moreover have "RulesEngine_slugify ''  SIM-SROS-01 (lab) '' = ''sim-sros-01-lab''"
    by code_simp
  ultimately show ?thesis using l by blast
qed

text \<open>
  The claim as stated fails on a letter outside ASCII that stays one after \<^verbatim>\<open>lower\<close>: for
  the four characters \<^verbatim>\<open>c\<close>, \<^verbatim>\<open>a\<close>, \<^verbatim>\<open>f\<close> and U+00E9 (e with an acute accent) \<^verbatim>\<open>slugify\<close>
  keeps the letter, which \<^verbatim>\<open>isalnum\<close> accepts, and \<^verbatim>\<open>_slugify\<close> replaces it by a hyphen that
  is then stripped.
\<close>

theorem slugify_routines_differ_counterexample:
  "py_lower (py_strip [CHR ''c'', CHR ''a'', CHR ''f'', CHR 0xE9]) =
     [CHR ''c'', CHR ''a'', CHR ''f'', CHR 0xE9] \<and>
   py_isalnum (CHR 0xE9) \<and> \<not> is_az09 (CHR 0xE9) \<and>
   slugify [CHR ''c'', CHR ''a'', CHR ''f'', CHR 0xE9] = [CHR ''c'', CHR ''a'', CHR ''f'', CHR 0xE9] \<and>
   RulesEngine_slugify [CHR ''c'', CHR ''a'', CHR ''f'', CHR 0xE9] = ''caf'' \<and>
   slugify [CHR ''c'', CHR ''a'', CHR ''f'', CHR 0xE9]
     \<noteq> RulesEngine_slugify [CHR ''c'', CHR ''a'', CHR ''f'', CHR 0xE9]"
  by code_simp


section \<open>The modules of a harvest\<close>

lemma entries_ok_add_module: "entries_ok es \<Longrightarrow> entries_ok (add_module es bm)"
  by (cases bm)
     (auto simp: entries_ok_def add_module_def module_key_def new_module_def map_of_eq_None_iff)

lemma entries_ok_foldl: "entries_ok es \<Longrightarrow> entries_ok (foldl add_module es xs)"
  by (induction xs arbitrary: es) (simp_all add: entries_ok_add_module)

lemma keys_add_module:
  "fst ` set (add_module es bm) = fst ` set es \<union> usable_pairs [bm]"
  by (cases bm) (auto simp: add_module_def usable_pairs_def map_of_eq_None_iff)

lemma usable_pairs_Cons: "usable_pairs (x # xs) = usable_pairs [x] \<union> usable_pairs xs"
  by (auto simp: usable_pairs_def)

lemma keys_foldl_add_module:
  "fst ` set (foldl add_module es xs) = fst ` set es \<union> usable_pairs xs"
proof (induction xs arbitrary: es)
  case Nil
  show ?case by (simp add: usable_pairs_def)
next
  case (Cons x xs)
  show ?case
    by (simp add: Cons.IH keys_add_module usable_pairs_Cons [of x xs] Un_assoc)
qed

text \<open>
  C9, as amended. The modules of a harvest hold at most one module per pair of bay name
  and model: the pairs of the modules are distinct, and they are exactly the pairs with
  a non-empty bay name and a non-empty model that the three sources report. Nothing
  collapses two different models reported for one bay.
\<close>

theorem modules_distinct_per_bay_and_model:
  "distinct (map module_key (harvest_modules module_pairs card_modules mda_matches)) \<and>
   set (map module_key (harvest_modules module_pairs card_modules mda_matches)) =
     usable_pairs module_pairs \<union> usable_pairs card_modules \<union>
     usable_pairs (mda_modules mda_matches)"
proof -
  let ?es = "foldl add_module
          (foldl add_module (foldl add_module [] module_pairs) card_modules)
          (mda_modules mda_matches)"
  have ok: "entries_ok ?es"
    by (intro entries_ok_foldl) (simp add: entries_ok_def)
  have m: "map module_key (harvest_modules module_pairs card_modules mda_matches) = map fst ?es"
    using ok by (simp add: harvest_modules_def entries_ok_def)
  have "set (map fst ?es) = usable_pairs module_pairs \<union> usable_pairs card_modules \<union>
     usable_pairs (mda_modules mda_matches)"
    by (simp add: keys_foldl_add_module)
  with ok m show ?thesis by (simp add: entries_ok_def)
qed

theorem modules_distinct_per_bay_and_model_witness:
  "map module_key
     (harvest_modules [(''Card A'', ''imm24'')] [(''Card A'', ''imm24''), (''Card B'', ''xc12'')]
        [(''1'', [])]) =
     [(''Card A'', ''imm24''), (''Card B'', ''xc12''), (''MDA 1'', ''mda-slot-1'')] \<and>
   distinct (map module_key
     (harvest_modules [(''Card A'', ''imm24'')] [(''Card A'', ''imm24''), (''Card B'', ''xc12'')]
        [(''1'', [])]))"
proof -
  have "map module_key
     (harvest_modules [(''Card A'', ''imm24'')] [(''Card A'', ''imm24''), (''Card B'', ''xc12'')]
        [(''1'', [])]) =
     [(''Card A'', ''imm24''), (''Card B'', ''xc12''), (''MDA 1'', ''mda-slot-1'')]"
    by (simp add: harvest_modules_def add_module_def mda_modules_def new_module_def module_key_def)
  with modules_distinct_per_bay_and_model
    [of "[(''Card A'', ''imm24'')]" "[(''Card A'', ''imm24''), (''Card B'', ''xc12'')]"
        "[(''1'', [])]"]
  show ?thesis by blast
qed

text \<open>
  The claim as stated fails when two sources report different models for one bay: the
  provisioned-type listing gives \<^verbatim>\<open>iom3-xp-b\<close> for \<^verbatim>\<open>Card 1\<close> and the card listing gives
  \<^verbatim>\<open>iom3-xp\<close>, and the harvest holds two modules for the bay \<^verbatim>\<open>Card 1\<close>.
\<close>

theorem two_modules_in_one_bay_counterexample:
  "map nm_bay_name (harvest_modules [(''Card 1'', ''iom3-xp-b'')] [(''Card 1'', ''iom3-xp'')] [])
     = [''Card 1'', ''Card 1''] \<and>
   map nm_module_type_model
     (harvest_modules [(''Card 1'', ''iom3-xp-b'')] [(''Card 1'', ''iom3-xp'')] [])
     = [''iom3-xp-b'', ''iom3-xp''] \<and>
   \<not> distinct (map nm_bay_name
        (harvest_modules [(''Card 1'', ''iom3-xp-b'')] [(''Card 1'', ''iom3-xp'')] []))"
  by (simp add: harvest_modules_def add_module_def mda_modules_def new_module_def)


section \<open>The order of the interface proposals\<close>

lemma bind_result_Inr:
  "bind_result m f = Inr y \<longleftrightarrow> (\<exists>x. m = Inr x \<and> f x = Inr y)"
  by (cases m) auto

lemma map_result_Inr:
  "map_result f xs = Inr ys \<longleftrightarrow> list_all2 (\<lambda>x y. f x = Inr y) xs ys"
proof (induction xs arbitrary: ys)
  case Nil
  show ?case by auto
next
  case (Cons x xs)
  show ?case by (cases ys) (auto simp: bind_result_Inr Cons.IH)
qed

lemma bind_result_InrE:
  "bind_result m f = Inr y \<Longrightarrow> (\<And>x. m = Inr x \<Longrightarrow> f x = Inr y \<Longrightarrow> Q) \<Longrightarrow> Q"
  by (cases m) auto

lemma proposal_of_action:
  "(case ProposalEngine_action_and_diff des cur ex of
      (act, d) \<Rightarrow>
        Inr \<lparr>p_action = act, p_model = mo, p_identifier = n,
             p_desired = des, p_current = cur, p_diff = d\<rparr>) = Inr p \<Longrightarrow>
   p_identifier p = n \<and> p_desired p = des \<and> p_current p = cur \<and> p_model p = mo \<and>
   (p_action p, p_diff p) = ProposalEngine_action_and_diff des cur ex"
  by (auto split: prod.splits)

lemma interface_proposal_fields:
  assumes "interface_proposal em iface = Inr p"
  shows "p_identifier p = ni_name iface \<and> p_desired p = interface_desired iface"
proof -
  from assms show ?thesis
    unfolding interface_proposal_def Let_def
  proof (elim bind_result_InrE)
    fix cur
    assume "(case ProposalEngine_action_and_diff (interface_desired iface) cur
                (map_of em (ni_name iface) \<noteq> None) of
           (act, d) \<Rightarrow>
             Inr \<lparr>p_action = act, p_model = ''interface'', p_identifier = ni_name iface,
                  p_desired = interface_desired iface, p_current = cur, p_diff = d\<rparr>) = Inr p"
    from proposal_of_action [OF this] show ?thesis by blast
  qed
qed

lemma interface_desired_type: "dict_get (interface_desired iface) ''type'' = PStr (ni_type_slug iface)"
  by (simp add: interface_desired_def dict_get_def)

lemma proposal_key_of_interface:
  assumes "interface_proposal em iface = Inr p"
  shows "proposal_sort_key p = interface_sort_key iface"
  using interface_proposal_fields [OF assms]
  by (simp add: proposal_sort_key_def proposal_is_lag_def interface_sort_key_def interface_desired_type)

lemma interface_proposal_no_remote: "\<exists>p. interface_proposal [] iface = Inr p"
  by (simp add: interface_proposal_def Let_def split: prod.splits)

lemma map_result_total:
  "(\<And>x. \<exists>y. f x = Inr y) \<Longrightarrow> \<exists>ys. map_result f xs = Inr ys"
proof (induction xs)
  case Nil
  show ?case by simp
next
  case (Cons x xs)
  from Cons.prems obtain y where "f x = Inr y" by blast
  moreover from Cons obtain ys where "map_result f xs = Inr ys" by blast
  ultimately show ?case by simp
qed

lemma list_all2_map_eq:
  "list_all2 (\<lambda>x y. f x = Inr y) xs ys \<Longrightarrow> (\<And>x y. f x = Inr y \<Longrightarrow> g y = h x) \<Longrightarrow>
   map g ys = map h xs"
  by (induction rule: list_all2_induct) auto

lemma list_all2_filter_keys:
  "list_all2 (\<lambda>x y. f x = Inr y) xs ys \<Longrightarrow> (\<And>x y. f x = Inr y \<Longrightarrow> g y = h x) \<Longrightarrow>
   list_all2 (\<lambda>x y. f x = Inr y) (filter (\<lambda>x. h x = k) xs) (filter (\<lambda>y. g y = k) ys)"
  by (induction rule: list_all2_induct) auto

lemma lag_key_first:
  assumes "sorted (map proposal_sort_key ps)" and "i < length ps" and "j < length ps"
      and "proposal_is_lag (ps ! i)" and "\<not> proposal_is_lag (ps ! j)"
  shows "i < j"
proof (rule ccontr)
  assume "\<not> i < j"
  then have "j \<le> i" by simp
  with assms(1,2) have "map proposal_sort_key ps ! j \<le> map proposal_sort_key ps ! i"
    by (simp add: sorted_iff_nth_mono)
  with assms(2,3) have "proposal_sort_key (ps ! j) \<le> proposal_sort_key (ps ! i)" by simp
  with assms(4,5) show False by (simp add: proposal_sort_key_def less_eq_prod_def)
qed


lemma member_after_its_lag:
  assumes keys: "map proposal_sort_key ps = map interface_sort_key (sort_key interface_sort_key ifaces)"
      and m: "m \<in> set ifaces" and l: "l \<in> set ifaces"
      and tl: "ni_type_slug l = ''lag''" and tm: "ni_type_slug m \<noteq> ''lag''"
  shows "\<exists>i j. i < j \<and> j < length ps \<and> p_identifier (ps ! i) = ni_name l \<and>
               p_identifier (ps ! j) = ni_name m"
proof -
  let ?xs = "sort_key interface_sort_key ifaces"
  have "length (map proposal_sort_key ps) = length (map interface_sort_key ?xs)"
    by (simp only: keys)
  then have len: "length ps = length ?xs" by (simp only: length_map)
  have nth: "proposal_sort_key (ps ! i) = interface_sort_key (?xs ! i)" if "i < length ps" for i
  proof -
    have "map proposal_sort_key ps ! i = map interface_sort_key ?xs ! i" by (simp only: keys)
    with that len show ?thesis by simp
  qed
  have "l \<in> set ?xs" using l by simp
  then obtain i where i: "i < length ?xs" "?xs ! i = l" unfolding in_set_conv_nth by blast
  have "m \<in> set ?xs" using m by simp
  then obtain j where j: "j < length ?xs" "?xs ! j = m" unfolding in_set_conv_nth by blast
  have ki: "proposal_sort_key (ps ! i) = (False, ni_name l)"
    using nth [of i] i len tl by (simp add: interface_sort_key_def)
  have kj: "proposal_sort_key (ps ! j) = (True, ni_name m)"
    using nth [of j] j len tm by (simp add: interface_sort_key_def)
  have srt: "sorted (map proposal_sort_key ps)" by (simp add: keys)
  have "i < j"
    using lag_key_first [OF srt, of i j] i j len ki kj by (simp add: proposal_sort_key_def)
  moreover have "p_identifier (ps ! i) = ni_name l" using ki by (simp add: proposal_sort_key_def)
  moreover have "p_identifier (ps ! j) = ni_name m" using kj by (simp add: proposal_sort_key_def)
  ultimately show ?thesis using j len by auto
qed


text \<open>
  C7. The interface proposals are one per interface of the inventory, in the order of
  the stable sort by the key (type is not \<^verbatim>\<open>"lag"\<close>, name): the keys of the proposals are a
  permutation of the keys of the interfaces and are sorted, so every proposal of the LAG
  type stands before every proposal of another type, and within each of the two groups
  the proposals are ordered by name; interfaces with equal keys keep their order; a
  physical interface stands after the LAG-type interface that its \<^verbatim>\<open>lag\<close> field names.
  Without a remote device the proposals are always produced.
\<close>

theorem interface_proposals_lag_first:
  assumes "interfaces_proposals ifaces state = Inr ps"
  shows "mset (map proposal_sort_key ps) = mset (map interface_sort_key ifaces) \<and>
         sorted (map proposal_sort_key ps) \<and>
         (\<forall>i j. i < length ps \<and> j < length ps \<and>
                proposal_is_lag (ps ! i) \<and> \<not> proposal_is_lag (ps ! j) \<longrightarrow> i < j) \<and>
         (\<forall>k. map_result
                 (interface_proposal (case state of None \<Rightarrow> [] | Some st \<Rightarrow> ds_interfaces st))
                 (filter (\<lambda>x. interface_sort_key x = k) ifaces) =
               Inr (filter (\<lambda>p. proposal_sort_key p = k) ps)) \<and>
         (\<forall>m l. m \<in> set ifaces \<and> l \<in> set ifaces \<and> ni_type_slug l = ''lag'' \<and>
                ni_type_slug m \<noteq> ''lag'' \<and> ni_lag m = Some (ni_name l) \<longrightarrow>
                (\<exists>i j. i < j \<and> j < length ps \<and> p_identifier (ps ! i) = ni_name l \<and>
                       p_identifier (ps ! j) = ni_name m)) \<and>
         map proposal_sort_key ps = map interface_sort_key (sort_key interface_sort_key ifaces) \<and>
         (\<exists>qs. interfaces_proposals ifaces None = Inr qs)"
proof -
  let ?em = "case state of None \<Rightarrow> [] | Some st \<Rightarrow> ds_interfaces st"
  let ?xs = "sort_key interface_sort_key ifaces"
  from assms have all2: "list_all2 (\<lambda>x y. interface_proposal ?em x = Inr y) ?xs ps"
    by (simp add: interfaces_proposals_def Let_def map_result_Inr)
  have keys: "map proposal_sort_key ps = map interface_sort_key ?xs"
    using all2 by (rule list_all2_map_eq) (rule proposal_key_of_interface)
  have 2: "mset (map proposal_sort_key ps) = mset (map interface_sort_key ifaces)"
    by (simp add: keys)
  have 3: "sorted (map proposal_sort_key ps)"
    by (simp add: keys)
  have 4: "\<forall>i j. i < length ps \<and> j < length ps \<and>
                proposal_is_lag (ps ! i) \<and> \<not> proposal_is_lag (ps ! j) \<longrightarrow> i < j"
    using lag_key_first [OF 3] by blast
  have 5: "\<forall>k. map_result (interface_proposal ?em)
                 (filter (\<lambda>x. interface_sort_key x = k) ifaces) =
               Inr (filter (\<lambda>p. proposal_sort_key p = k) ps)"
  proof
    fix k
    have "list_all2 (\<lambda>x y. interface_proposal ?em x = Inr y)
            (filter (\<lambda>x. interface_sort_key x = k) ?xs) (filter (\<lambda>p. proposal_sort_key p = k) ps)"
      using all2 by (rule list_all2_filter_keys) (rule proposal_key_of_interface)
    then show "map_result (interface_proposal ?em)
                 (filter (\<lambda>x. interface_sort_key x = k) ifaces) =
               Inr (filter (\<lambda>p. proposal_sort_key p = k) ps)"
      by (simp add: map_result_Inr sort_key_stable)
  qed
  have 6: "\<exists>qs. interfaces_proposals ifaces None = Inr qs"
    unfolding interfaces_proposals_def Let_def
    by (simp add: map_result_total interface_proposal_no_remote)
  have 7: "\<forall>m l. m \<in> set ifaces \<and> l \<in> set ifaces \<and> ni_type_slug l = ''lag'' \<and>
                ni_type_slug m \<noteq> ''lag'' \<and> ni_lag m = Some (ni_name l) \<longrightarrow>
                (\<exists>i j. i < j \<and> j < length ps \<and> p_identifier (ps ! i) = ni_name l \<and>
                       p_identifier (ps ! j) = ni_name m)"
    using member_after_its_lag [OF keys] by blast
  from keys 2 3 4 5 6 7 show ?thesis by blast
qed

text \<open>
  The three interfaces of the sample inventory, with no remote device: the LAG comes
  first, then the two ports by name.
\<close>

theorem interface_proposals_lag_first_witness:
  "\<exists>ps. interfaces_proposals ex_interfaces None = Inr ps \<and>
        map p_identifier ps = [''LAG 1'', ''1/1/1'', ''1/1/2''] \<and>
        sorted (map proposal_sort_key ps)"
proof -
  obtain ps where ps: "interfaces_proposals ex_interfaces None = Inr ps"
    using map_result_total [of "interface_proposal []" "sort_key interface_sort_key ex_interfaces"]
      interface_proposal_no_remote
    by (auto simp: interfaces_proposals_def Let_def)
  from interface_proposals_lag_first [OF ps]
  have keys: "map proposal_sort_key ps =
              map interface_sort_key (sort_key interface_sort_key ex_interfaces)"
    and srt: "sorted (map proposal_sort_key ps)" by blast+
  have "map interface_sort_key (sort_key interface_sort_key ex_interfaces) =
        [(False, ''LAG 1''), (True, ''1/1/1''), (True, ''1/1/2'')]"
    by (simp add: ex_interfaces_def ex_iface_def interface_sort_key_def less_eq_prod_def)
  with keys have "map snd (map proposal_sort_key ps) = [''LAG 1'', ''1/1/1'', ''1/1/2'']"
    by simp
  then have ids: "map p_identifier ps = [''LAG 1'', ''1/1/1'', ''1/1/2'']"
    by (simp add: proposal_sort_key_def o_def)
  show ?thesis
    by (rule exI [of _ ps]) (intro conjI ps ids srt)
qed


section \<open>LAG membership reconciliation\<close>

lemma names_set_lag_of [simp]: "map if_name (set_lag_of S v recs) = map if_name recs"
  by (simp add: set_lag_of_def comp_def if_distrib)

lemma ids_set_lag_of [simp]: "map if_id (set_lag_of S v recs) = map if_id recs"
  by (simp add: set_lag_of_def comp_def if_distrib)

lemma set_lag_of_empty [simp]: "set_lag_of {} v recs = recs"
  by (simp add: set_lag_of_def)

lemma set_lag_of_twice:
  "set_lag_of T v (set_lag_of S v recs) = set_lag_of (S \<union> T) v recs"
  by (auto simp: set_lag_of_def)

lemma interfaces_get_Some:
  assumes "interfaces_get rs m = Some iface"
  shows "iface \<in> set (ri_records rs) \<and> if_name iface = m"
  using assms unfolding interfaces_get_def by (auto simp: find_Some_iff)

lemma interfaces_get_None: "interfaces_get rs m = None \<longleftrightarrow> m \<notin> set (map if_name (ri_records rs))"
  unfolding interfaces_get_def by (auto simp: find_None_iff)

lemma iface_update_records:
  assumes ok: "store_ok rs" and g: "interfaces_get rs m = Some iface"
  shows "ri_records (iface_update rs iface v) = set_lag_of {m} v (ri_records rs)"
proof -
  from interfaces_get_Some [OF g] have mem: "iface \<in> set (ri_records rs)" and nm: "if_name iface = m"
    by simp_all
  from ok have inj_n: "inj_on if_name (set (ri_records rs))" and inj_i: "inj_on if_id (set (ri_records rs))"
    by (simp_all add: store_ok_def distinct_map)
  have "\<And>r. r \<in> set (ri_records rs) \<Longrightarrow> (if_id r = if_id iface) = (if_name r \<in> {m})"
  proof -
    fix r assume r: "r \<in> set (ri_records rs)"
    have "(if_id r = if_id iface) = (r = iface)" using inj_i r mem by (auto dest: inj_onD)
    also have "\<dots> = (if_name r = if_name iface)" using inj_n r mem by (auto dest: inj_onD)
    finally show "(if_id r = if_id iface) = (if_name r \<in> {m})" by (simp add: nm)
  qed
  then show ?thesis by (simp add: iface_update_def set_lag_of_def)
qed

lemma iface_update_log: "ri_updates (iface_update rs iface v) = ri_updates rs @ [(if_name iface, v)]"
  by (simp add: iface_update_def)

lemma store_ok_set_lag_of:
  "store_ok rs \<Longrightarrow> ri_records rs' = set_lag_of S v (ri_records rs) \<Longrightarrow> store_ok rs'"
  by (simp add: store_ok_def)

lemma add_members_ok:
  assumes "store_ok rs" and "\<forall>m \<in> set ms. m \<in> set (map if_name (ri_records rs))"
  shows "\<exists>rs'. add_members lag_name lag_id ms rs = (None, rs') \<and>
               ri_records rs' = set_lag_of (set ms) (Some lag_id) (ri_records rs) \<and>
               ri_updates rs' = ri_updates rs @ map (\<lambda>m. (m, Some lag_id)) ms"
  using assms
proof (induction ms arbitrary: rs)
  case Nil
  show ?case by simp
next
  case (Cons m ms)
  from Cons.prems(2) have "interfaces_get rs m \<noteq> None" by (simp add: interfaces_get_None)
  then obtain iface where g: "interfaces_get rs m = Some iface" by auto
  let ?rs1 = "iface_update rs iface (Some lag_id)"
  have r1: "ri_records ?rs1 = set_lag_of {m} (Some lag_id) (ri_records rs)"
    by (rule iface_update_records [OF Cons.prems(1) g])
  have ok1: "store_ok ?rs1" by (rule store_ok_set_lag_of [OF Cons.prems(1) r1])
  have ex1: "\<forall>x \<in> set ms. x \<in> set (map if_name (ri_records ?rs1))"
    using Cons.prems(2) by (simp add: r1)
  from Cons.IH [OF ok1 ex1] obtain rs' where
    a: "add_members lag_name lag_id ms ?rs1 = (None, rs')" and
    b: "ri_records rs' = set_lag_of (set ms) (Some lag_id) (ri_records ?rs1)" and
    c: "ri_updates rs' = ri_updates ?rs1 @ map (\<lambda>m. (m, Some lag_id)) ms" by blast
  have nm: "if_name iface = m" using interfaces_get_Some [OF g] by simp
  have "add_members lag_name lag_id (m # ms) rs = (None, rs')" using g a by simp
  moreover have "ri_records rs' = set_lag_of (set (m # ms)) (Some lag_id) (ri_records rs)"
    by (simp add: b r1 set_lag_of_twice)
  moreover have "ri_updates rs' = ri_updates rs @ map (\<lambda>m. (m, Some lag_id)) (m # ms)"
    by (simp add: c iface_update_log nm)
  ultimately show ?case by blast
qed

lemma remove_members_ok:
  assumes "store_ok rs" and "\<forall>m \<in> set ms. m \<in> set (map if_name (ri_records rs))"
  shows "ri_records (remove_members ms rs) = set_lag_of (set ms) None (ri_records rs) \<and>
         ri_updates (remove_members ms rs) = ri_updates rs @ map (\<lambda>m. (m, None)) ms"
  using assms
proof (induction ms arbitrary: rs)
  case Nil
  show ?case by simp
next
  case (Cons m ms)
  from Cons.prems(2) have "interfaces_get rs m \<noteq> None" by (simp add: interfaces_get_None)
  then obtain iface where g: "interfaces_get rs m = Some iface" by auto
  let ?rs1 = "iface_update rs iface None"
  have r1: "ri_records ?rs1 = set_lag_of {m} None (ri_records rs)"
    by (rule iface_update_records [OF Cons.prems(1) g])
  have ok1: "store_ok ?rs1" by (rule store_ok_set_lag_of [OF Cons.prems(1) r1])
  have ex1: "\<forall>x \<in> set ms. x \<in> set (map if_name (ri_records ?rs1))"
    using Cons.prems(2) by (simp add: r1)
  note ih = Cons.IH [OF ok1 ex1]
  have nm: "if_name iface = m" using interfaces_get_Some [OF g] by simp
  have "remove_members (m # ms) rs = remove_members ms ?rs1" using g by simp
  then show ?case using ih by (simp add: r1 set_lag_of_twice iface_update_log nm)
qed

lemma set_lag_of_both:
  "set_lag_of R None (set_lag_of A v recs) =
   map (\<lambda>r. if if_name r \<in> R then r\<lparr>if_lag := None\<rparr>
            else if if_name r \<in> A then r\<lparr>if_lag := v\<rparr> else r) recs"
  by (simp add: set_lag_of_def)

lemma members_after:
  "set (map if_name (filter (\<lambda>r. if_lag r = Some lid)
          (set_lag_of R None (set_lag_of A (Some lid) recs)))) =
   ((A \<inter> set (map if_name recs)) \<union> set (map if_name (filter (\<lambda>r. if_lag r = Some lid) recs))) - R"
  unfolding set_lag_of_both
proof (induction recs)
  case Nil
  show ?case by simp
next
  case (Cons r recs)
  show ?case using Cons.IH by (cases "if_name r \<in> R"; cases "if_name r \<in> A") auto
qed

lemma str_elems_distinct_remdups: "desired_member_set des = Inr ds \<Longrightarrow> distinct ds"
  by (auto simp: desired_member_set_def bind_result_Inr)

lemma sort_distinct: "distinct xs \<Longrightarrow> sort xs = sorted_list_of_set (set xs)"
  by (simp add: sorted_list_of_set_sort_remdups distinct_remdups_id)

lemma names_iface_update [simp]:
  "map if_name (ri_records (iface_update rs iface v)) = map if_name (ri_records rs)"
  by (simp add: iface_update_def comp_def if_distrib)

lemma add_members_missing:
  "\<exists>m \<in> set ms. interfaces_get rs m = None \<Longrightarrow> fst (add_members lag_name lag_id ms rs) \<noteq> None"
proof (induction ms arbitrary: rs)
  case Nil
  then show ?case by simp
next
  case (Cons m ms)
  show ?case
  proof (cases "interfaces_get rs m")
    case None
    then show ?thesis by simp
  next
    case (Some iface)
    with Cons.prems have "\<exists>x \<in> set ms. interfaces_get rs x = None" by auto
    then have "\<exists>x \<in> set ms. interfaces_get (iface_update rs iface (Some lag_id)) x = None"
      by (simp add: interfaces_get_None)
    from Cons.IH [OF this] Some show ?thesis by simp
  qed
qed

lemma apply_lag_proposal_success:
  assumes act: "p_action p \<noteq> ''noop''" and ok: "store_ok rs"
      and lag: "interfaces_get rs (p_identifier p) = Some lag_iface"
      and des: "desired_member_set (p_desired p) = Inr ds"
      and ex: "\<forall>m \<in> set ds. m \<notin> remote_members rs (if_id lag_iface) \<longrightarrow> interfaces_get rs m \<noteq> None"
  shows "\<exists>rs'. apply_lag_proposal p rs = (None, rs') \<and>
           ri_updates rs' = ri_updates rs @
             map (\<lambda>m. (m, Some (if_id lag_iface)))
               (sorted_list_of_set (set ds - remote_members rs (if_id lag_iface))) @
             map (\<lambda>m. (m, None))
               (sorted_list_of_set (remote_members rs (if_id lag_iface) - set ds)) \<and>
           remote_members rs' (if_id lag_iface) = set ds"
proof -
  let ?lid = "if_id lag_iface"
  let ?cur = "remdups (map if_name (interfaces_filter_lag rs ?lid))"
  let ?add = "filter (\<lambda>m. m \<notin> set ?cur) ds"
  let ?rem = "filter (\<lambda>m. m \<notin> set ds) ?cur"
  have dd: "distinct ds" by (rule str_elems_distinct_remdups [OF des])
  have cur: "set ?cur = remote_members rs ?lid" by (simp add: remote_members_def)
  have sa: "set ?add = set ds - remote_members rs ?lid" using cur by auto
  have sr: "set ?rem = remote_members rs ?lid - set ds" using cur by auto
  have sort_add: "sort ?add = sorted_list_of_set (set ds - remote_members rs ?lid)"
    using sort_distinct [of ?add] dd sa by simp
  have sort_rem: "sort ?rem = sorted_list_of_set (remote_members rs ?lid - set ds)"
    using sort_distinct [of ?rem] sr by simp
  have exa: "\<forall>m \<in> set (sort ?add). m \<in> set (map if_name (ri_records rs))"
    using ex sa by (auto simp: interfaces_get_None)
  from add_members_ok [OF ok exa, of "p_identifier p" ?lid] obtain rs1 where
    a1: "add_members (p_identifier p) ?lid (sort ?add) rs = (None, rs1)" and
    a2: "ri_records rs1 = set_lag_of (set (sort ?add)) (Some ?lid) (ri_records rs)" and
    a3: "ri_updates rs1 = ri_updates rs @ map (\<lambda>m. (m, Some ?lid)) (sort ?add)" by blast
  have ok1: "store_ok rs1" by (rule store_ok_set_lag_of [OF ok a2])
  have exr: "\<forall>m \<in> set (sort ?rem). m \<in> set (map if_name (ri_records rs1))"
    using sr by (auto simp: a2 remote_members_def interfaces_filter_lag_def)
  note r = remove_members_ok [OF ok1 exr]
  let ?rs' = "remove_members (sort ?rem) rs1"
  have res: "apply_lag_proposal p rs = (None, ?rs')"
    using act lag des a1 by (simp add: apply_lag_proposal_def Let_def)
  have log: "ri_updates ?rs' = ri_updates rs @
             map (\<lambda>m. (m, Some ?lid)) (sorted_list_of_set (set ds - remote_members rs ?lid)) @
             map (\<lambda>m. (m, None)) (sorted_list_of_set (remote_members rs ?lid - set ds))"
  proof -
    from r have "ri_updates ?rs' = ri_updates rs1 @ map (\<lambda>m. (m, None)) (sort ?rem)"
      by (rule conjunct2)
    then show ?thesis by (simp only: a3 sort_add sort_rem append_assoc)
  qed
  have recs: "ri_records ?rs' =
        set_lag_of (remote_members rs ?lid - set ds) None
          (set_lag_of (set ds - remote_members rs ?lid) (Some ?lid) (ri_records rs))"
  proof -
    from r have "ri_records ?rs' = set_lag_of (set (sort ?rem)) None (ri_records rs1)"
      by (rule conjunct1)
    then show ?thesis by (simp only: a2 set_sort sa sr)
  qed
  have sub: "set ds - remote_members rs ?lid \<subseteq> set (map if_name (ri_records rs))"
    using ex by (auto simp: interfaces_get_None)
  have cm: "set (map if_name (filter (\<lambda>r. if_lag r = Some ?lid) (ri_records rs))) =
            remote_members rs ?lid"
    by (simp add: remote_members_def interfaces_filter_lag_def)
  have "remote_members ?rs' ?lid =
        set (map if_name (filter (\<lambda>r. if_lag r = Some ?lid) (ri_records ?rs')))"
    by (simp add: remote_members_def interfaces_filter_lag_def)
  also have "\<dots> = set (map if_name (filter (\<lambda>r. if_lag r = Some ?lid)
        (set_lag_of (remote_members rs ?lid - set ds) None
          (set_lag_of (set ds - remote_members rs ?lid) (Some ?lid) (ri_records rs)))))"
    by (simp only: recs)
  also have "\<dots> = (((set ds - remote_members rs ?lid) \<inter> set (map if_name (ri_records rs))) \<union>
          set (map if_name (filter (\<lambda>r. if_lag r = Some ?lid) (ri_records rs)))) -
          (remote_members rs ?lid - set ds)"
    by (rule members_after)
  also have "\<dots> = (((set ds - remote_members rs ?lid) \<inter> set (map if_name (ri_records rs))) \<union>
          remote_members rs ?lid) - (remote_members rs ?lid - set ds)"
    by (simp only: cm)
  also have "\<dots> = set ds" using sub by blast
  finally have mem: "remote_members ?rs' ?lid = set ds" .
  from res log mem show ?thesis by blast
qed

text \<open>
  C3, as amended. A LAG proposal whose action is \<^verbatim>\<open>noop\<close> is skipped: nothing is read or
  written. For any other LAG proposal, when the LAG interface exists remotely and every
  desired member that is not yet a member exists as a remote interface, apply computes
  the additions as the desired members minus the current remote members and the removals
  as the current remote members minus the desired ones, issues exactly one update per
  addition, in sorted order of the names, setting the LAG reference, then exactly one update
  per removal, in sorted order of the names, clearing it, and afterwards the remote members
  of the LAG are the desired set. When the LAG interface does not exist, or a member to
  add does not exist, apply raises an error instead.
\<close>

theorem lag_membership_reconciled:
  "(p_action p = ''noop'' \<longrightarrow>
      apply_lag_proposal p rs = (None, rs) \<and>
      apply_lag_membership (p # ps) rs = apply_lag_membership ps rs) \<and>
   (p_action p \<noteq> ''noop'' \<and> store_ok rs \<and>
    interfaces_get rs (p_identifier p) = Some lag_iface \<and>
    desired_member_set (p_desired p) = Inr ds \<and>
    (\<forall>m \<in> set ds. m \<notin> remote_members rs (if_id lag_iface) \<longrightarrow> interfaces_get rs m \<noteq> None) \<longrightarrow>
      (\<exists>rs'. apply_lag_proposal p rs = (None, rs') \<and>
         ri_updates rs' = ri_updates rs @
           map (\<lambda>m. (m, Some (if_id lag_iface)))
             (sorted_list_of_set (set ds - remote_members rs (if_id lag_iface))) @
           map (\<lambda>m. (m, None))
             (sorted_list_of_set (remote_members rs (if_id lag_iface) - set ds)) \<and>
         remote_members rs' (if_id lag_iface) = set ds)) \<and>
   (p_action p \<noteq> ''noop'' \<and> interfaces_get rs (p_identifier p) = None \<longrightarrow>
      apply_lag_proposal p rs =
        (Some (ValueError (''LAG interface '' @ [CHR 0x27] @ p_identifier p @ [CHR 0x27] @
                           '' not found when setting membership'')), rs)) \<and>
   (p_action p \<noteq> ''noop'' \<and> interfaces_get rs (p_identifier p) = Some lag_iface \<and>
    desired_member_set (p_desired p) = Inr ds \<and>
    (\<exists>m \<in> set ds. m \<notin> remote_members rs (if_id lag_iface) \<and> interfaces_get rs m = None) \<longrightarrow>
      fst (apply_lag_proposal p rs) \<noteq> None)"
proof -
  have 1: "p_action p = ''noop'' \<longrightarrow>
      apply_lag_proposal p rs = (None, rs) \<and>
      apply_lag_membership (p # ps) rs = apply_lag_membership ps rs"
    by (simp add: apply_lag_proposal_def)
  have 2: "p_action p \<noteq> ''noop'' \<and> store_ok rs \<and>
    interfaces_get rs (p_identifier p) = Some lag_iface \<and>
    desired_member_set (p_desired p) = Inr ds \<and>
    (\<forall>m \<in> set ds. m \<notin> remote_members rs (if_id lag_iface) \<longrightarrow> interfaces_get rs m \<noteq> None) \<longrightarrow>
      (\<exists>rs'. apply_lag_proposal p rs = (None, rs') \<and>
         ri_updates rs' = ri_updates rs @
           map (\<lambda>m. (m, Some (if_id lag_iface)))
             (sorted_list_of_set (set ds - remote_members rs (if_id lag_iface))) @
           map (\<lambda>m. (m, None))
             (sorted_list_of_set (remote_members rs (if_id lag_iface) - set ds)) \<and>
         remote_members rs' (if_id lag_iface) = set ds)"
    using apply_lag_proposal_success [of p rs lag_iface ds] by blast
  have 3: "p_action p \<noteq> ''noop'' \<and> interfaces_get rs (p_identifier p) = None \<longrightarrow>
      apply_lag_proposal p rs =
        (Some (ValueError (''LAG interface '' @ [CHR 0x27] @ p_identifier p @ [CHR 0x27] @
                           '' not found when setting membership'')), rs)"
    by (simp add: apply_lag_proposal_def Let_def)
  have 4: "p_action p \<noteq> ''noop'' \<and> interfaces_get rs (p_identifier p) = Some lag_iface \<and>
    desired_member_set (p_desired p) = Inr ds \<and>
    (\<exists>m \<in> set ds. m \<notin> remote_members rs (if_id lag_iface) \<and> interfaces_get rs m = None) \<longrightarrow>
      fst (apply_lag_proposal p rs) \<noteq> None"
  proof (intro impI, elim conjE)
    assume act: "p_action p \<noteq> ''noop''" and lag: "interfaces_get rs (p_identifier p) = Some lag_iface"
      and des: "desired_member_set (p_desired p) = Inr ds"
      and mis: "\<exists>m \<in> set ds. m \<notin> remote_members rs (if_id lag_iface) \<and> interfaces_get rs m = None"
    let ?cur = "remdups (map if_name (interfaces_filter_lag rs (if_id lag_iface)))"
    let ?add = "filter (\<lambda>m. m \<notin> set ?cur) ds"
    from mis have "\<exists>m \<in> set (sort ?add). interfaces_get rs m = None"
      by (auto simp: remote_members_def)
    from add_members_missing [OF this, of "p_identifier p" "if_id lag_iface"]
    obtain e rs1 where "add_members (p_identifier p) (if_id lag_iface) (sort ?add) rs = (Some e, rs1)"
      by (cases "add_members (p_identifier p) (if_id lag_iface) (sort ?add) rs") auto
    then show "fst (apply_lag_proposal p rs) \<noteq> None"
      using act lag des by (simp add: apply_lag_proposal_def Let_def)
  qed
  from 1 2 3 4 show ?thesis by blast
qed


text \<open>
  The example of the specification: remote members \<^verbatim>\<open>{p1, p2}\<close>, desired \<^verbatim>\<open>{p2, p3}\<close>;
  \<^verbatim>\<open>p3\<close> is added, \<^verbatim>\<open>p1\<close> is removed, and the members are \<^verbatim>\<open>{p2, p3}\<close> afterwards.
\<close>

theorem lag_membership_reconciled_witness:
  "\<exists>rs'. apply_lag_proposal ex_lag_proposal ex_remote = (None, rs') \<and>
         ri_updates rs' = [(''p3'', Some 1), (''p1'', None)] \<and>
         remote_members rs' 1 = {''p2'', ''p3''}"
proof -
  have act: "p_action ex_lag_proposal \<noteq> ''noop''" by (simp add: ex_lag_proposal_def)
  have ok: "store_ok ex_remote" by (simp add: store_ok_def ex_remote_def)
  have lag: "interfaces_get ex_remote (p_identifier ex_lag_proposal) =
             Some \<lparr>if_id = 1, if_name = ''LAG 1'', if_lag = None\<rparr>"
    by (simp add: interfaces_get_def ex_remote_def ex_lag_proposal_def)
  have des: "desired_member_set (p_desired ex_lag_proposal) = Inr [''p2'', ''p3'']"
    by (simp add: desired_member_set_def ex_lag_proposal_def dict_get_default_def)
  have cur: "remote_members ex_remote 1 = {''p1'', ''p2''}"
    by (simp add: remote_members_def interfaces_filter_lag_def ex_remote_def) 
  have ex: "\<forall>m \<in> set [''p2'', ''p3'']. m \<notin> remote_members ex_remote 1 \<longrightarrow>
              interfaces_get ex_remote m \<noteq> None"
    by (simp add: cur interfaces_get_def ex_remote_def)
  have add: "sorted_list_of_set (set [''p2'', ''p3''] - {''p1'', ''p2''}) = [''p3'']"
    by code_simp
  have rem: "sorted_list_of_set ({''p1'', ''p2''} - set [''p2'', ''p3'']) = [''p1'']"
    by code_simp
  from lag_membership_reconciled [of ex_lag_proposal ex_remote "[]"
      "\<lparr>if_id = 1, if_name = ''LAG 1'', if_lag = None\<rparr>" "[''p2'', ''p3'']"]
    act ok lag des ex
  obtain rs' where r: "apply_lag_proposal ex_lag_proposal ex_remote = (None, rs')"
    and u: "ri_updates rs' = ri_updates ex_remote @
           map (\<lambda>m. (m, Some 1)) (sorted_list_of_set (set [''p2'', ''p3''] - remote_members ex_remote 1)) @
           map (\<lambda>m. (m, None)) (sorted_list_of_set (remote_members ex_remote 1 - set [''p2'', ''p3'']))"
    and m: "remote_members rs' 1 = set [''p2'', ''p3'']"
    by auto
  have u': "ri_updates rs' = [(''p3'', Some 1), (''p1'', None)]"
    unfolding u cur add rem by (simp add: ex_remote_def)
  have m': "remote_members rs' 1 = {''p2'', ''p3''}" using m by simp
  show ?thesis by (rule exI [of _ rs']) (intro conjI r u' m')
qed


text \<open>
  The claim as stated fails for a proposal whose member to add is no remote interface:
  with \<^verbatim>\<open>p3\<close> missing, apply raises, no update is issued, and the remote members stay
  \<^verbatim>\<open>{p1, p2}\<close>.
\<close>

theorem missing_member_counterexample:
  "p_action ex_lag_proposal \<noteq> ''noop'' \<and>
   fst (apply_lag_proposal ex_lag_proposal ex_remote_no_p3) =
     Some (ValueError (''Interface '' @ [CHR 0x27] @ ''p3'' @ [CHR 0x27] @
                       '' not found while adding to LAG 1'')) \<and>
   ri_updates (snd (apply_lag_proposal ex_lag_proposal ex_remote_no_p3)) = [] \<and>
   remote_members (snd (apply_lag_proposal ex_lag_proposal ex_remote_no_p3)) 1 = {''p1'', ''p2''} \<and>
   remote_members (snd (apply_lag_proposal ex_lag_proposal ex_remote_no_p3)) 1 \<noteq> {''p2'', ''p3''}"
proof -
  have a: "apply_lag_proposal ex_lag_proposal ex_remote_no_p3 =
        (Some (ValueError (''Interface '' @ [CHR 0x27] @ ''p3'' @ [CHR 0x27] @
                       '' not found while adding to LAG 1'')), ex_remote_no_p3)"
    by (simp add: apply_lag_proposal_def ex_lag_proposal_def ex_remote_no_p3_def Let_def
        interfaces_get_def interfaces_filter_lag_def desired_member_set_def dict_get_default_def)
  have b: "remote_members ex_remote_no_p3 1 = {''p1'', ''p2''}"
    by (simp add: remote_members_def interfaces_filter_lag_def ex_remote_no_p3_def)
  have c: "{''p1'', ''p2''} \<noteq> {''p2'', ''p3''}" by (simp add: doubleton_eq_iff)
  have d: "p_action ex_lag_proposal \<noteq> ''noop''" by (simp add: ex_lag_proposal_def)
  have e: "ri_updates ex_remote_no_p3 = []" by (simp add: ex_remote_no_p3_def)
  show ?thesis unfolding a fst_conv snd_conv b using c d e by simp
qed

section \<open>Planning against a remote state that matches the inventory\<close>

text \<open>
  A LAG proposal compares the sorted desired members with the sorted remote members.
  When the LAG interface exists and the remote members are the desired ones, and there is
  at least one, the proposal is \<^verbatim>\<open>noop\<close>.
\<close>

lemma lag_proposal_members:
  assumes "dict_contains interfaces (nl_name lag)"
    and "map_of membership (nl_name lag) = Some ms" and "ms \<noteq> []" and "distinct ms"
    and "set ms = set (nl_members lag)"
  shows "p_action (lag_proposal membership interfaces lag) = ''noop''"
proof -
  have "sort ms = sort (remdups (nl_members lag))"
    using assms(4,5) by (metis distinct_remdups set_remdups sorted_list_of_set.idem_if_sorted_distinct
        distinct_sort set_sort sorted_sort sorted_distinct_set_unique)
  moreover have "sort ms \<noteq> []" using assms(3) by (metis set_sort set_empty)
  ultimately show ?thesis
    using assms(1,2)
    by (simp add: lag_proposal_def Let_def ProposalEngine_action_and_diff_def
        ProposalEngine_diff_def dict_get_def py_eq_refl del: py_eq.simps)
qed

text \<open>
  When the remote LAG has no members, \<^verbatim>\<open>current\<close> is \<^verbatim>\<open>None\<close> rather than the map with the
  empty member list, \<^verbatim>\<open>_diff\<close> returns the desired map, whose \<^verbatim>\<open>members\<close> field is a list
  and so not \<^verbatim>\<open>None\<close>, and the proposal of an existing LAG is \<^verbatim>\<open>update\<close>, whatever the
  desired members are.
\<close>

lemma lag_proposal_no_members:
  assumes "dict_contains interfaces (nl_name lag)"
    and "map_of membership (nl_name lag) = None \<or> map_of membership (nl_name lag) = Some []"
  shows "p_action (lag_proposal membership interfaces lag) = ''update''"
  using assms
  by (auto simp: lag_proposal_def Let_def ProposalEngine_action_and_diff_def
      ProposalEngine_diff_def non_null_fields_def)

text \<open>
  C1. Plan idempotence fails for a LAG without members. The remote system holds the
  device, with every field as desired, and the interface \<^verbatim>\<open>LAG 1\<close> with no member, which
  is what the inventory describes: the device and the interface proposals are \<^verbatim>\<open>noop\<close>,
  but the LAG proposal is \<^verbatim>\<open>update\<close> with the diff \<^verbatim>\<open>{"members": []}\<close>. Applying the LAG
  proposals of this batch succeeds and issues no update, so the remote state after the
  apply is the same, and the plan against it is this batch again.
\<close>

theorem empty_lag_plan_is_update: "(case build ex_netbox_empty_lag ex_inventory_empty_lag of
     Inl e \<Rightarrow> []
   | Inr b \<Rightarrow> map (\<lambda>p. (p_model p, p_identifier p, p_action p, p_diff p)) (actions b)) =
   [(''device'', ''SIM-SROS-01'', ''noop'', None),
    (''interface'', ''LAG 1'', ''noop'', None),
    (''lag'', ''LAG 1'', ''update'', Some [(''members'', PList [])])] \<and>
   (case build ex_netbox_empty_lag ex_inventory_empty_lag of
     Inl e \<Rightarrow> None
   | Inr b \<Rightarrow> Some (apply_lag_membership (b_lags b) ex_remote_lag_only)) =
   Some (None, ex_remote_lag_only)"
  by code_simp

end
